theory Spec2Isabelle
  imports Main "HOL-Library.List_Lexorder"
begin

text \<open>
  A model of \<open>epub.py\<close>, the class \<open>EpubGenerator\<close> that turns a text file and a
  folder of images into an EPUB archive: the segmentation of the text into chapters
  (\<open>read_txt_file\<close>), the collection of the images (\<open>add_images\<close>), the generated
  parts of the package, and the packaging (\<open>generate_epub\<close>). The definitions come
  first; the properties C1 to C10 of the program follow them.
\<close>

section \<open>Python strings\<close>

text \<open>
  A Python \<open>str\<close> is a sequence of Unicode code points; it is modelled as a list of
  natural numbers, one per code point. ASCII text is written with \<open>asc\<close>; text outside
  ASCII is written as the list of its code points.
\<close>

type_synonym pystr = "nat list"

definition asc :: "string \<Rightarrow> pystr" where
  "asc s = map of_char s"

definition NL :: nat where
  "NL = 10"

text \<open>
  \<open>str.isspace\<close> of a single code point, which is also the class \<open>\s\<close> of \<open>re\<close> on
  \<open>str\<close> patterns: U+0009..U+000D, U+001C..U+0020, U+0085, U+00A0, U+1680,
  U+2000..U+200A, U+2028, U+2029, U+202F, U+205F, U+3000.
\<close>

definition isspace :: "nat \<Rightarrow> bool" where
  "isspace c \<longleftrightarrow>
     (9 \<le> c \<and> c \<le> 13) \<or> (28 \<le> c \<and> c \<le> 32) \<or> c = 133 \<or> c = 160 \<or> c = 5760 \<or>
     (8192 \<le> c \<and> c \<le> 8202) \<or> c = 8232 \<or> c = 8233 \<or> c = 8239 \<or> c = 8287 \<or> c = 12288"

text \<open>
  The class \<open>\d\<close> of \<open>re\<close> on \<open>str\<close> patterns is the Unicode category Nd. Every run of
  decimal digits is a decade starting at its digit zero; \<open>nd_zeros\<close> lists the code
  points of the digit zeros (Unicode 14.0, the table of CPython 3.11).
\<close>

definition nd_zeros :: "nat list" where
  "nd_zeros =
    [48, 1632, 1776, 1984, 2406, 2534, 2662, 2790, 2918, 3046, 3174, 3302, 3430, 3558,
     3664, 3792, 3872, 4160, 4240, 6112, 6160, 6470, 6608, 6784, 6800, 6992, 7088, 7232,
     7248, 42528, 43216, 43264, 43472, 43504, 43600, 44016, 65296, 66720, 68912, 69734,
     69872, 69942, 70096, 70384, 70736, 70864, 71248, 71360, 71472, 71904, 72016, 72784,
     73040, 73120, 92768, 92864, 93008, 120782, 120792, 120802, 120812, 120822, 123200,
     123632, 125264, 130032]"

definition isdecimal :: "nat \<Rightarrow> bool" where
  "isdecimal c \<longleftrightarrow> list_ex (\<lambda>z. z \<le> c \<and> c < z + 10) nd_zeros"

definition lstrip :: "pystr \<Rightarrow> pystr" where
  "lstrip s = dropWhile isspace s"

definition rstrip :: "pystr \<Rightarrow> pystr" where
  "rstrip s = rev (dropWhile isspace (rev s))"

text \<open>\<open>s.strip()\<close>: the whitespace at both ends is removed.\<close>

definition strip :: "pystr \<Rightarrow> pystr" where
  "strip s = rstrip (lstrip s)"

text \<open>\<open>s.split('\n')\<close>: the result always has at least one element.\<close>

fun split_nl :: "pystr \<Rightarrow> pystr list" where
  "split_nl [] = [[]]"
| "split_nl (c # cs) =
     (if c = NL then [] # split_nl cs
      else (case split_nl cs of [] \<Rightarrow> [[c]] | l # ls \<Rightarrow> (c # l) # ls))"

text \<open>\<open>'\n'.join(ls)\<close>, also written \<open>chr(10).join(ls)\<close> in the source.\<close>

fun join_nl :: "pystr list \<Rightarrow> pystr" where
  "join_nl [] = []"
| "join_nl [l] = l"
| "join_nl (l # ls) = l @ NL # join_nl ls"

text \<open>\<open>s.startswith(p)\<close> and \<open>p in s\<close>.\<close>

definition startswith :: "pystr \<Rightarrow> pystr \<Rightarrow> bool" where
  "startswith s p \<longleftrightarrow> take (length p) s = p"

fun contains :: "pystr \<Rightarrow> pystr \<Rightarrow> bool" where
  "contains [] p = (p = [])"
| "contains (c # cs) p = (startswith (c # cs) p \<or> contains cs p)"

text \<open>The decimal rendering of a number inside an f-string.\<close>

fun str_of_nat :: "nat \<Rightarrow> pystr" where
  "str_of_nat n = (if n < 10 then [48 + n] else str_of_nat (n div 10) @ [48 + n mod 10])"

declare str_of_nat.simps [simp del]

section \<open>The EpubGenerator's state\<close>

record Chapter =
  title :: pystr
  content :: pystr

record Image =
  image_id :: pystr
  path :: pystr
  filename :: pystr

record EpubGenerator =
  book_id :: pystr
  chapters :: "Chapter list"
  images :: "Image list"
  cover_image :: "Image option"
  book_title :: pystr
  author :: pystr
  language :: pystr

text \<open>
  The fixed Chinese texts of the source, by their code points: the placeholder title
  of \<open>__init__\<close> (U+672A U+547D U+540D U+5C0F U+8BF4, "untitled novel"), its placeholder
  author (U+672A U+77E5 U+4F5C U+8005, "unknown author"), and the title under which
  \<open>read_txt_file\<close> collects the text before the first marker (U+524D U+8A00, "preface").
  \<open>init\<close> is \<open>__init__\<close>; its argument is the result of \<open>str(uuid.uuid4())\<close>.
\<close>

definition default_title :: pystr where
  "default_title = [26410, 21629, 21517, 23567, 35828]"

definition default_author :: pystr where
  "default_author = [26410, 30693, 20316, 32773]"

definition preface_title :: pystr where
  "preface_title = [21069, 35328]"

definition init :: "pystr \<Rightarrow> EpubGenerator" where
  "init uuid4 =
     \<lparr>book_id = uuid4, chapters = [], images = [], cover_image = None,
      book_title = default_title, author = default_author, language = asc ''zh''\<rparr>"

section \<open>Text segmenter\<close>

subsection \<open>The chapter-marker patterns\<close>

text \<open>
  \<open>re.match(pattern, line)\<close> holds when some prefix of the line is in the language of
  the pattern. Each of the four patterns is written as the function deciding that.
\<close>

text \<open>
  The characters of the patterns outside ASCII: U+7B2C (the ordinal prefix) and U+7AE0
  ("chapter") of the first pattern, U+3010 and U+3011 (the lenticular brackets) of the
  fourth.
\<close>

definition DI :: nat where "DI = 31532"
definition ZHANG :: nat where "ZHANG = 31456"
definition LBRACKET :: nat where "LBRACKET = 12304"
definition RBRACKET :: nat where "RBRACKET = 12305"

text \<open>
  The class \<open>[...\d]\<close> of the first pattern: the thirteen Chinese numerals for one to
  ten, hundred, thousand and ten thousand, or a decimal digit.
\<close>

definition numeral_char :: "nat \<Rightarrow> bool" where
  "numeral_char c \<longleftrightarrow>
     c \<in> set [19968, 20108, 19977, 22235, 20116, 20845, 19971, 20843, 20061, 21313,
              30334, 21315, 19975] \<or> isdecimal c"

text \<open>One or more characters of the class, then the character ZHANG.\<close>

fun numerals_then_zhang :: "pystr \<Rightarrow> bool" where
  "numerals_then_zhang (c # d # cs) =
     (numeral_char c \<and> (d = ZHANG \<or> numerals_then_zhang (d # cs)))"
| "numerals_then_zhang _ = False"

definition pattern1 :: "pystr \<Rightarrow> bool" where
  "pattern1 line = (case line of [] \<Rightarrow> False | c # cs \<Rightarrow> c = DI \<and> numerals_then_zhang cs)"

text \<open>\<open>\s*\d+\<close>: any whitespace, then at least one decimal digit.\<close>

fun spaces_then_digit :: "pystr \<Rightarrow> bool" where
  "spaces_then_digit [] = False"
| "spaces_then_digit (c # cs) = (isdecimal c \<or> (isspace c \<and> spaces_then_digit cs))"

definition pattern2 :: "pystr \<Rightarrow> bool" where
  "pattern2 line \<longleftrightarrow>
     startswith line (asc ''Chapter'') \<and> spaces_then_digit (drop 7 line)"

text \<open>
  \<open>.*$\<close>: characters other than the newline up to the end of the string, or up to
  a newline that is its last character.
\<close>

definition rest_of_line :: "pystr \<Rightarrow> bool" where
  "rest_of_line s = (let r = dropWhile (\<lambda>c. c \<noteq> NL) s in r = [] \<or> r = [NL])"

fun digits_then_dot :: "pystr \<Rightarrow> bool" where
  "digits_then_dot (c # d # cs) =
     (isdecimal c \<and> ((d = 46 \<and> rest_of_line cs) \<or> digits_then_dot (d # cs)))"
| "digits_then_dot _ = False"

definition pattern3 :: "pystr \<Rightarrow> bool" where
  "pattern3 line = digits_then_dot line"

text \<open>\<open>.*\<close> then the closing bracket at the end of the string.\<close>

fun any_then_close :: "pystr \<Rightarrow> bool" where
  "any_then_close [] = False"
| "any_then_close (c # cs) =
     ((c = RBRACKET \<and> (cs = [] \<or> cs = [NL])) \<or> (c \<noteq> NL \<and> any_then_close cs))"

definition pattern4 :: "pystr \<Rightarrow> bool" where
  "pattern4 line = (case line of [] \<Rightarrow> False | c # cs \<Rightarrow> c = LBRACKET \<and> any_then_close cs)"

definition chapter_patterns :: "(pystr \<Rightarrow> bool) list" where
  "chapter_patterns = [pattern1, pattern2, pattern3, pattern4]"

text \<open>The inner \<open>for pattern in chapter_patterns\<close> loop with its \<open>break\<close>.\<close>

fun is_chapter_title :: "(pystr \<Rightarrow> bool) list \<Rightarrow> pystr \<Rightarrow> bool" where
  "is_chapter_title [] line = False"
| "is_chapter_title (p # ps) line = (if p line then True else is_chapter_title ps line)"

subsection \<open>The scanning loop\<close>

text \<open>
  The variables of the loop of \<open>read_txt_file\<close>: \<open>self.chapters\<close>, \<open>current_chapter\<close>,
  \<open>chapter_title\<close> and \<open>chapter_count\<close>.
\<close>

record scan =
  scanned :: "Chapter list"
  current_chapter :: pystr
  chapter_title :: pystr
  chapter_count :: nat

text \<open>\<open>if acc.strip(): chapters.append({'title': t, 'content': acc.strip()})\<close>.\<close>

definition append_chapter :: "Chapter list \<Rightarrow> pystr \<Rightarrow> pystr \<Rightarrow> Chapter list" where
  "append_chapter chs t acc =
     (if strip acc \<noteq> [] then chs @ [\<lparr>title = t, content = strip acc\<rparr>] else chs)"

text \<open>One iteration of \<open>for line in lines\<close>.\<close>

definition scan_line :: "scan \<Rightarrow> pystr \<Rightarrow> scan" where
  "scan_line s raw =
     (let line = strip raw in
      if line = [] then s\<lparr>current_chapter := current_chapter s @ [NL]\<rparr>
      else if is_chapter_title chapter_patterns line then
        s\<lparr>scanned := append_chapter (scanned s) (chapter_title s) (current_chapter s),
          chapter_title := line,
          current_chapter := [],
          chapter_count := chapter_count s + 1\<rparr>
      else s\<lparr>current_chapter := current_chapter s @ line @ [NL]\<rparr>)"

fun scan_lines :: "scan \<Rightarrow> pystr list \<Rightarrow> scan" where
  "scan_lines s [] = s"
| "scan_lines s (l # ls) = scan_lines (scan_line s l) ls"

text \<open>
  The first part of \<open>read_txt_file\<close>: the title, and the text after the title line.
  \<open>text\<close> is what \<open>f.read()\<close> returned and \<open>book_name\<close> is \<open>Path(txt_path).stem\<close>.
\<close>

definition title_line :: "pystr \<Rightarrow> EpubGenerator \<Rightarrow> EpubGenerator \<times> pystr" where
  "title_line text self =
     (let lines = split_nl text in
      if lines \<noteq> [] then (self\<lparr>book_title := strip (hd lines)\<rparr>, join_nl (tl lines))
      else (self, text))"

definition title_fallback :: "pystr \<Rightarrow> EpubGenerator \<Rightarrow> EpubGenerator" where
  "title_fallback book_name self =
     (if book_title self = [] \<or> book_title self = default_title then
        (if book_name \<noteq> [] then self\<lparr>book_title := book_name\<rparr> else self)
      else self)"

text \<open>The loop and the append at the end of the input.\<close>

definition scan_text :: "Chapter list \<Rightarrow> pystr \<Rightarrow> Chapter list" where
  "scan_text chs text =
     (let s = scan_lines \<lparr>scanned = chs, current_chapter = [], chapter_title = preface_title,
                          chapter_count = 0\<rparr> (split_nl text)
      in append_chapter (scanned s) (chapter_title s) (current_chapter s))"

definition read_txt_file :: "pystr \<Rightarrow> pystr \<Rightarrow> EpubGenerator \<Rightarrow> EpubGenerator" where
  "read_txt_file book_name text self =
     (let (self1, body) = title_line text self;
          self2 = title_fallback book_name self1;
          chs = scan_text (chapters self2) body
      in if chs = [] then
           self2\<lparr>chapters := [\<lparr>title = book_title self2, content = strip body\<rparr>]\<rparr>
         else self2\<lparr>chapters := chs\<rparr>)"

definition set_metadata :: "pystr option \<Rightarrow> pystr option \<Rightarrow> pystr \<Rightarrow> EpubGenerator \<Rightarrow> EpubGenerator" where
  "set_metadata title_arg author_arg language_arg self =
     (let self1 = (case title_arg of None \<Rightarrow> self
                   | Some t \<Rightarrow> if t \<noteq> [] then self\<lparr>book_title := t\<rparr> else self);
          self2 = (case author_arg of None \<Rightarrow> self1
                   | Some a \<Rightarrow> if a \<noteq> [] then self1\<lparr>author := a\<rparr> else self1)
      in self2\<lparr>language := language_arg\<rparr>)"

section \<open>Asset collector\<close>

text \<open>
  \<open>Path(file).suffix\<close> of a bare file name, as \<open>os.listdir\<close> returns them:
  \<open>i = name.rfind('.')\<close>, and the suffix is \<open>name[i:]\<close> when \<open>0 < i < len(name) - 1\<close>.
\<close>

definition rfind :: "pystr \<Rightarrow> nat \<Rightarrow> int" where
  "rfind s c =
     (if c \<in> set s then int (length s) - 1 - int (length (takeWhile (\<lambda>x. x \<noteq> c) (rev s)))
      else - 1)"

definition suffix :: "pystr \<Rightarrow> pystr" where
  "suffix name =
     (let i = rfind name 46 in
      if 0 < i \<and> i < int (length name) - 1 then drop (nat i) name else [])"

definition supported_formats :: "pystr list" where
  "supported_formats =
     [asc ''.jpg'', asc ''.jpeg'', asc ''.png'', asc ''.gif'', asc ''.bmp'', asc ''.webp'']"

text \<open>\<open>os.path.join(a, b)\<close> with the separator \<open>/\<close>.\<close>

definition path_join :: "pystr \<Rightarrow> pystr \<Rightarrow> pystr" where
  "path_join a b =
     (if startswith b (asc ''/'') then b
      else if a = [] \<or> last a = 47 then a @ b
      else a @ asc ''/'' @ b)"

text \<open>
  \<open>str.lower\<close> is a parameter of the collector, named \<open>lower\<close>: the case mapping of
  the runtime's Unicode tables. On ASCII text it is \<open>ascii_lower\<close>.
\<close>

definition ascii_lower :: "pystr \<Rightarrow> pystr" where
  "ascii_lower s = map (\<lambda>c. if 65 \<le> c \<and> c \<le> 90 then c + 32 else c) s"

text \<open>The first loop of \<open>add_images\<close>: the supported files, in the order of the listing.\<close>

fun image_files :: "(pystr \<Rightarrow> pystr) \<Rightarrow> pystr list \<Rightarrow> pystr list" where
  "image_files lower [] = []"
| "image_files lower (file # fs) =
     (if lower (suffix file) \<in> set supported_formats then file # image_files lower fs
      else image_files lower fs)"

text \<open>
  The test \<open>'cover' in img_file.lower() or ... in img_file.lower()\<close>, whose second
  token is the Chinese word for cover, U+5C01 U+9762.
\<close>

definition is_cover :: "(pystr \<Rightarrow> pystr) \<Rightarrow> pystr \<Rightarrow> bool" where
  "is_cover lower img_file \<longleftrightarrow>
     contains (lower img_file) (asc ''cover'') \<or> contains (lower img_file) [23553, 38754]"

text \<open>One iteration of the second loop, and the loop.\<close>

definition add_image :: "(pystr \<Rightarrow> pystr) \<Rightarrow> pystr \<Rightarrow> EpubGenerator \<Rightarrow> pystr \<Rightarrow> EpubGenerator" where
  "add_image lower image_folder self img_file =
     (let img_path = path_join image_folder img_file;
          img_id = asc ''img_'' @ str_of_nat (length (images self) + 1)
      in if is_cover lower img_file then
           self\<lparr>cover_image := Some \<lparr>image_id = asc ''cover'', path = img_path, filename = img_file\<rparr>\<rparr>
         else
           self\<lparr>images := images self @ [\<lparr>image_id = img_id, path = img_path, filename = img_file\<rparr>]\<rparr>)"

fun add_image_files :: "(pystr \<Rightarrow> pystr) \<Rightarrow> pystr \<Rightarrow> EpubGenerator \<Rightarrow> pystr list \<Rightarrow> EpubGenerator" where
  "add_image_files lower image_folder self [] = self"
| "add_image_files lower image_folder self (f # fs) =
     add_image_files lower image_folder (add_image lower image_folder self f) fs"

text \<open>
  \<open>add_images\<close>. The argument \<open>listing\<close> is \<open>None\<close> when \<open>os.path.exists(image_folder)\<close>
  is false, and otherwise the result of \<open>os.listdir(image_folder)\<close>. \<open>list.sort\<close> orders
  strings by code point, which is the lexicographic order of lists.
\<close>

definition add_images :: "(pystr \<Rightarrow> pystr) \<Rightarrow> pystr \<Rightarrow> pystr list option \<Rightarrow> EpubGenerator \<Rightarrow> EpubGenerator" where
  "add_images lower image_folder listing self =
     (case listing of None \<Rightarrow> self
      | Some entries \<Rightarrow> add_image_files lower image_folder self (sort (image_files lower entries)))"

section \<open>Document assembler\<close>

subsection \<open>Sanitizers\<close>

text \<open>
  \<open>re.sub(r'<[^>]+>', '', title)\<close>: scanning from the left, a \<open><\<close> followed by one or
  more characters other than \<open>>\<close> and then a \<open>>\<close> is removed; any other character is kept.
\<close>

function remove_tags :: "pystr \<Rightarrow> pystr" where
  "remove_tags [] = []"
| "remove_tags (c # cs) =
     (let inner = takeWhile (\<lambda>x. x \<noteq> 62) cs; rest = dropWhile (\<lambda>x. x \<noteq> 62) cs in
      if c = 60 \<and> inner \<noteq> [] \<and> rest \<noteq> [] then remove_tags (tl rest)
      else c # remove_tags cs)"
  by pat_completeness auto
termination
proof (relation "measure length")
  show "wf (measure length)" by simp
next
  fix c :: nat and cs inner rest :: "nat list"
  assume "rest = dropWhile (\<lambda>x. x \<noteq> 62) cs"
  then have "length rest \<le> length cs" by (simp add: length_dropWhile_le)
  then have "length (tl rest) < length (c # cs)" by simp
  then show "(tl rest, c # cs) \<in> measure length" by simp
next
  fix c :: nat and cs :: "nat list"
  show "(cs, c # cs) \<in> measure length" by simp
qed

definition sanitize_title :: "pystr \<Rightarrow> pystr" where
  "sanitize_title t = (let clean_title = remove_tags t; clean_title = strip clean_title in clean_title)"

text \<open>
  The pattern \<open><div(\s[^>]*)?>\<close> at the start of a string: the text of the group (empty
  when the group takes no part in the match) and the text after the match.
\<close>

definition match_div :: "pystr \<Rightarrow> (pystr \<times> pystr) option" where
  "match_div s =
     (if startswith s (asc ''<div'') then
        (case drop 4 s of
           [] \<Rightarrow> None
         | d # ds \<Rightarrow>
             if isspace d then
               (let attrs = takeWhile (\<lambda>x. x \<noteq> 62) ds; rest = dropWhile (\<lambda>x. x \<noteq> 62) ds in
                if rest \<noteq> [] then Some (d # attrs, tl rest) else None)
             else if d = 62 then Some ([], ds)
             else None)
      else None)"

text \<open>\<open>re.sub(r'<div(\s[^>]*)?>', r'<section\1>', content)\<close>.\<close>

function sub_div_open :: "pystr \<Rightarrow> pystr" where
  "sub_div_open [] = []"
| "sub_div_open (c # cs) =
     (case match_div (c # cs) of
        Some (attrs, rest) \<Rightarrow> asc ''<section'' @ attrs @ asc ''>'' @ sub_div_open rest
      | None \<Rightarrow> c # sub_div_open cs)"
  by pat_completeness auto
termination
proof (relation "measure length")
  show "wf (measure length)" by simp
next
  fix c :: nat and cs :: "nat list"
  show "(cs, c # cs) \<in> measure length" by simp
next
  fix c :: nat and cs attrs rest :: "nat list" and x
  assume "match_div (c # cs) = Some x" and "(attrs, rest) = x"
  then have m: "match_div (c # cs) = Some (attrs, rest)" by simp
  have "length rest < length (c # cs)"
  proof (cases "drop 4 (c # cs)")
    case Nil
    with m show ?thesis by (simp add: match_div_def split: if_splits)
  next
    case (Cons d ds)
    have l: "length (d # ds) \<le> length (c # cs)"
      using Cons by (metis length_drop diff_le_self)
    have "length (dropWhile (\<lambda>x. x \<noteq> 62) ds) \<le> length ds"
      by (rule length_dropWhile_le)
    then have "length (tl (dropWhile (\<lambda>x. x \<noteq> 62) ds)) \<le> length ds"
      by (simp add: le_SucI)
    with m Cons l show ?thesis
      by (auto simp: match_div_def Let_def split: if_splits)
  qed
  then show "(rest, c # cs) \<in> measure length" by simp
qed

text \<open>\<open>re.sub(r'</div>', '</section>', content)\<close>.\<close>

fun sub_div_close :: "pystr \<Rightarrow> pystr" where
  "sub_div_close [] = []"
| "sub_div_close (c # cs) =
     (if startswith (c # cs) (asc ''</div>'') then asc ''</section>'' @ sub_div_close (drop 5 cs)
      else c # sub_div_close cs)"

definition sanitize_content :: "pystr \<Rightarrow> pystr" where
  "sanitize_content content0 = sub_div_close (sub_div_open content0)"

subsection \<open>The environment of a run\<close>

text \<open>
  What the generated parts and the packaging take from the runtime and the operating
  system: the date \<open>datetime.now().strftime('%Y-%m-%d')\<close>, \<open>mimetypes.guess_type(p)[0]\<close>,
  the directory traversal \<open>os.walk\<close>, which input or output operations fail, and
  which paths a failing \<open>shutil.rmtree\<close> had removed before it failed.
\<close>

datatype fault = OpenFails | WriteFails nat

datatype error =
    FileNotFoundError pystr
  | FileExistsError pystr
  | NotADirectoryError pystr
  | OSError nat

datatype compression = ZIP_STORED | ZIP_DEFLATED

datatype data = File pystr | Zip "(pystr \<times> compression \<times> data) list"

record world =
  files :: "pystr \<Rightarrow> data option"
  folders :: "pystr set"
  clock :: nat

record env =
  today :: pystr
  guess_type :: "pystr \<Rightarrow> pystr option"
  os_walk :: "world \<Rightarrow> pystr \<Rightarrow> (pystr \<times> pystr list \<times> pystr list) list"
  faults :: "nat \<Rightarrow> fault option"
  swept :: "pystr \<Rightarrow> bool"

subsection \<open>Package document and cover page\<close>

text \<open>\<open>mimetypes.guess_type(path)[0] or 'image/jpeg'\<close>.\<close>

definition mime_type :: "env \<Rightarrow> pystr \<Rightarrow> pystr" where
  "mime_type env p =
     (case guess_type env p of None \<Rightarrow> asc ''image/jpeg''
      | Some m \<Rightarrow> if m \<noteq> [] then m else asc ''image/jpeg'')"

text \<open>
  The two lists \<open>manifest_items\<close> and \<open>spine_items\<close> are carried as a pair through the
  loops of \<open>_create_content_opf\<close>; \<open>enumerate\<close> pairs each element with its index.
\<close>

fun image_page_items :: "(nat \<times> Image) list \<Rightarrow> pystr list \<times> pystr list \<Rightarrow> pystr list \<times> pystr list" where
  "image_page_items [] (manifest_items, spine_items) = (manifest_items, spine_items)"
| "image_page_items ((i, img) # rest) (manifest_items, spine_items) =
     (let img_page_id = asc ''image_page_'' @ str_of_nat (i + 1) in
      image_page_items rest
        (manifest_items @
           [asc ''    <item id=\"'' @ img_page_id @ asc ''\" href=\"image_page_'' @ str_of_nat (i + 1) @
            asc ''.xhtml\" media-type=\"application/xhtml+xml\"/>''],
         spine_items @ [asc ''    <itemref idref=\"'' @ img_page_id @ asc ''\"/>'']))"

fun chapter_items :: "(nat \<times> Chapter) list \<Rightarrow> pystr list \<times> pystr list \<Rightarrow> pystr list \<times> pystr list" where
  "chapter_items [] (manifest_items, spine_items) = (manifest_items, spine_items)"
| "chapter_items ((i, chapter) # rest) (manifest_items, spine_items) =
     (let chapter_id = asc ''chapter_'' @ str_of_nat (i + 1) in
      chapter_items rest
        (manifest_items @
           [asc ''    <item id=\"'' @ chapter_id @ asc ''\" href=\"chapter_'' @ str_of_nat (i + 1) @
            asc ''.xhtml\" media-type=\"application/xhtml+xml\"/>''],
         spine_items @ [asc ''    <itemref idref=\"'' @ chapter_id @ asc ''\"/>'']))"

fun image_items :: "env \<Rightarrow> Image list \<Rightarrow> pystr list \<Rightarrow> pystr list" where
  "image_items env [] manifest_items = manifest_items"
| "image_items env (img # rest) manifest_items =
     image_items env rest
       (manifest_items @
          [asc ''    <item id=\"'' @ image_id img @ asc ''\" href=\"images/'' @ filename img @
           asc ''\" media-type=\"'' @ mime_type env (path img) @ asc ''\"/>''])"

definition opf_items :: "env \<Rightarrow> EpubGenerator \<Rightarrow> pystr list \<times> pystr list" where
  "opf_items env self =
     (let manifest_items =
            [asc ''    <item id=\"cover\" href=\"cover.xhtml\" media-type=\"application/xhtml+xml\"/>'',
             asc ''    <item id=\"nav\" href=\"nav.xhtml\" media-type=\"application/xhtml+xml\" properties=\"nav\"/>''];
          spine_items = [asc ''    <itemref idref=\"cover\"/>''];
          (manifest_items, spine_items) =
            image_page_items (enumerate 0 (images self)) (manifest_items, spine_items);
          (manifest_items, spine_items) =
            chapter_items (enumerate 0 (chapters self)) (manifest_items, spine_items);
          manifest_items =
            (case cover_image self of None \<Rightarrow> manifest_items
             | Some cover \<Rightarrow>
                 manifest_items @
                   [asc ''    <item id=\"cover_img\" href=\"images/'' @ filename cover @
                    asc ''\" media-type=\"'' @ mime_type env (path cover) @ asc ''\"/>'']);
          manifest_items = image_items env (images self) manifest_items;
          manifest_items =
            manifest_items @
              [asc ''    <item id=\"ncx\" href=\"toc.ncx\" media-type=\"application/x-dtbncx+xml\"/>'']
      in (manifest_items, spine_items))"

definition spine_items_of :: "env \<Rightarrow> EpubGenerator \<Rightarrow> pystr list" where
  "spine_items_of env self = snd (opf_items env self)"

text \<open>An f-string of several lines is the join of its lines.\<close>

definition content_opf :: "env \<Rightarrow> EpubGenerator \<Rightarrow> pystr" where
  "content_opf env self =
     (let (manifest_items, spine_items) = opf_items env self;
          sanitized_title = sanitize_title (book_title self)
      in join_nl
     [asc ''<?xml version=\"1.0\" encoding=\"UTF-8\"?>'',
      asc ''<package xmlns=\"http://www.idpf.org/2007/opf\" unique-identifier=\"bookid\" version=\"3.0\">'',
      asc ''    <metadata xmlns:dc=\"http://purl.org/dc/elements/1.1/\" xmlns:opf=\"http://www.idpf.org/2007/opf\">'',
      asc ''        <dc:title>'' @ sanitized_title @ asc ''</dc:title>'',
      asc ''        <dc:creator>'' @ author self @ asc ''</dc:creator>'',
      asc ''        <dc:identifier id=\"bookid\">'' @ book_id self @ asc ''</dc:identifier>'',
      asc ''        <dc:language>'' @ language self @ asc ''</dc:language>'',
      asc ''        <dc:date>'' @ today env @ asc ''</dc:date>'',
      asc ''        '' @ (if cover_image self \<noteq> None then asc ''<meta name='cover' content='cover_img'/>'' else []),
      asc ''    </metadata>'',
      asc ''    <manifest>'',
      join_nl manifest_items,
      asc ''    </manifest>'',
      asc ''    <spine>'',
      join_nl spine_items,
      asc ''    </spine>'',
      asc ''</package>''])"

definition cover_html :: "EpubGenerator \<Rightarrow> pystr" where
  "cover_html self = sanitize_content (join_nl
     [asc ''<?xml version=\"1.0\" encoding=\"UTF-8\"?>'',
      asc ''<!DOCTYPE html>'',
      asc ''<html xmlns=\"http://www.w3.org/1999/xhtml\">'',
      asc ''<head>'',
      asc ''    <title>'' @ book_title self @ asc ''</title>'',
      asc ''    <style type=\"text/css\">'',
      asc ''        body {'',
      asc ''            display: flex;'',
      asc ''            flex-direction: column;'',
      asc ''            justify-content: center;'',
      asc ''            align-items: center;'',
      asc ''            height: 100vh;'',
      asc ''            margin: 0;'',
      asc ''            padding: 0;'',
      asc ''            text-align: center;'',
      asc ''            font-family: serif;'',
      asc ''        }'',
      asc ''        h1 {'',
      asc ''            font-size: 3em;'',
      asc ''            color: #0066cc;'',
      asc ''            margin: 0.5em 0;'',
      asc ''            text-align: center;'',
      asc ''            font-weight: bold;'',
      asc ''        }'',
      asc ''        .author {'',
      asc ''            font-size: 1.2em;'',
      asc ''            color: #666;'',
      asc ''            margin-top: 1em;'',
      asc ''        }'',
      asc ''        .book-info {'',
      asc ''            text-align: center;'',
      asc ''            padding: 2em;'',
      asc ''        }'',
      asc ''    </style>'',
      asc ''</head>'',
      asc ''<body>'',
      asc ''    <main class=\"book-info\">'',
      asc ''        <h1>'' @ book_title self @ asc ''</h1>'',
      asc ''        <p class=\"author\">'' @ author self @ asc ''</p>'',
      asc ''    </main>'',
      asc ''</body>'',
      asc ''</html>''])"

subsection \<open>Navigation\<close>

fun nav_points_of :: "(nat \<times> Chapter) list \<Rightarrow> nat \<Rightarrow> pystr list \<Rightarrow> pystr list" where
  "nav_points_of [] play_order nav_points = nav_points"
| "nav_points_of ((i, chapter) # rest) play_order nav_points =
     nav_points_of rest (play_order + 1)
       (nav_points @ [join_nl
     [asc ''    <navPoint id=\"navpoint-'' @ str_of_nat (i + 1) @ asc ''\" playOrder=\"'' @ str_of_nat play_order @ asc ''\">'',
      asc ''        <navLabel>'',
      asc ''            <text>'' @ title chapter @ asc ''</text>'',
      asc ''        </navLabel>'',
      asc ''        <content src=\"chapter_'' @ str_of_nat (i + 1) @ asc ''.xhtml\"/>'',
      asc ''    </navPoint>'']])"

definition toc_ncx :: "EpubGenerator \<Rightarrow> pystr" where
  "toc_ncx self =
     (let nav_points = nav_points_of (enumerate 0 (chapters self)) 1 [] in
      join_nl
     [asc ''<?xml version=\"1.0\" encoding=\"UTF-8\"?>'',
      asc ''<ncx xmlns=\"http://www.daisy.org/z3986/2005/ncx/\" version=\"2005-1\">'',
      asc ''    <head>'',
      asc ''        <meta name=\"dtb:uid\" content=\"'' @ book_id self @ asc ''\"/>'',
      asc ''        <meta name=\"dtb:depth\" content=\"1\"/>'',
      asc ''        <meta name=\"dtb:totalPageCount\" content=\"0\"/>'',
      asc ''        <meta name=\"dtb:maxPageNumber\" content=\"0\"/>'',
      asc ''    </head>'',
      asc ''    <docTitle>'',
      asc ''        <text>'' @ book_title self @ asc ''</text>'',
      asc ''    </docTitle>'',
      asc ''    <navMap>'',
      join_nl nav_points,
      asc ''    </navMap>'',
      asc ''</ncx>''])"

fun nav_items_of :: "(nat \<times> Chapter) list \<Rightarrow> pystr list \<Rightarrow> pystr list" where
  "nav_items_of [] nav_items = nav_items"
| "nav_items_of ((i, chapter) # rest) nav_items =
     nav_items_of rest
       (nav_items @
          [asc ''        <li><a href=\"chapter_'' @ str_of_nat (i + 1) @ asc ''.xhtml\">'' @
           title chapter @ asc ''</a></li>''])"

definition nav_xhtml :: "EpubGenerator \<Rightarrow> pystr" where
  "nav_xhtml self =
     (let nav_items = nav_items_of (enumerate 0 (chapters self)) [] in
      join_nl
     [asc ''<?xml version=\"1.0\" encoding=\"UTF-8\"?>'',
      asc ''<!DOCTYPE html>'',
      asc ''<html xmlns=\"http://www.w3.org/1999/xhtml\" xmlns:epub=\"http://www.idpf.org/2007/ops\">'',
      asc ''<head>'',
      asc ''    <title>'' @ book_title self @ asc ''</title>'',
      asc ''    <meta charset=\"utf-8\"/>'',
      asc ''</head>'',
      asc ''<body>'',
      asc ''    <nav epub:type=\"toc\" id=\"toc\">'',
      asc ''        <h1>'' @ [30446, 24405] @ asc ''</h1>'',
      asc ''        <ol>'',
      join_nl nav_items,
      asc ''        </ol>'',
      asc ''    </nav>'',
      asc ''</body>'',
      asc ''</html>''])"

subsection \<open>Image pages and chapter pages\<close>

definition image_html :: "nat \<Rightarrow> Image \<Rightarrow> pystr" where
  "image_html i img = sanitize_content (join_nl
     [asc ''<?xml version=\"1.0\" encoding=\"UTF-8\"?>'',
      asc ''<!DOCTYPE html PUBLIC \"-//W3C//DTD XHTML 1.1//EN\" \"http://www.w3.org/TR/xhtml11/DTD/xhtml11.dtd\">'',
      asc ''<html xmlns=\"http://www.w3.org/1999/xhtml\">'',
      asc ''<head>'',
      asc ''    <title>Image '' @ str_of_nat (i + 1) @ asc ''</title>'',
      asc ''    <style type=\"text/css\">'',
      asc ''        body {'',
      asc ''            margin: 0;'',
      asc ''            padding: 0;'',
      asc ''            display: flex;'',
      asc ''            justify-content: center;'',
      asc ''            align-items: center;'',
      asc ''            min-height: 100vh;'',
      asc ''            background-color: #ffffff;'',
      asc ''        }'',
      asc ''        .image-container {'',
      asc ''            text-align: center;'',
      asc ''            max-width: 100%;'',
      asc ''            max-height: 100vh;'',
      asc ''        }'',
      asc ''        .image-container img {'',
      asc ''            max-width: 100%;'',
      asc ''            max-height: 100vh;'',
      asc ''            height: auto;'',
      asc ''            width: auto;'',
      asc ''        }'',
      asc ''    </style>'',
      asc ''</head>'',
      asc ''<body>'',
      asc ''    <section class=\"image-container\">'',
      asc ''        <img src=\"images/'' @ filename img @ asc ''\" alt=\"Image\"/>'',
      asc ''    </section>'',
      asc ''</body>'',
      asc ''</html>''])"

text \<open>
  The inner loop of \<open>_create_chapters_html\<close> over the lines of a chapter's content. A
  line that starts with \<open>[\<close> and the Chinese word for picture (U+56FE U+7247), or with
  \<open>![\<close>, is dropped.
\<close>

fun paragraphs :: "pystr list \<Rightarrow> pystr list \<Rightarrow> pystr list" where
  "paragraphs [] content_paragraphs = content_paragraphs"
| "paragraphs (raw # rest) content_paragraphs =
     (let line = strip raw in
      if line \<noteq> [] then
        (if startswith line [91, 22270, 29255] \<or> startswith line (asc ''!['') then
           paragraphs rest content_paragraphs
         else paragraphs rest (content_paragraphs @ [asc ''<p>'' @ line @ asc ''</p>'']))
      else paragraphs rest content_paragraphs)"

definition chapter_html :: "EpubGenerator \<Rightarrow> nat \<Rightarrow> Chapter \<Rightarrow> pystr" where
  "chapter_html self i chapter =
     (let content_paragraphs = paragraphs (split_nl (content chapter)) [];
          page_break_before = (if i = 0 then asc ''page-break-before: always;'' else [])
      in sanitize_content (join_nl
     [asc ''<?xml version=\"1.0\" encoding=\"UTF-8\"?>'',
      asc ''<!DOCTYPE html PUBLIC \"-//W3C//DTD XHTML 1.1//EN\" \"http://www.w3.org/TR/xhtml11/DTD/xhtml11.dtd\">'',
      asc ''<html xmlns=\"http://www.w3.org/1999/xhtml\">'',
      asc ''<head>'',
      asc ''    <title>'' @ title chapter @ asc ''</title>'',
      asc ''    <style type=\"text/css\">'',
      asc ''        body {'',
      asc ''            font-family: serif;'',
      asc ''            line-height: 1.6;'',
      asc ''            margin: 1em 2em;'',
      asc ''        }'',
      asc ''        .book-title {'',
      asc ''            font-size: 2.5em;'',
      asc ''            color: #0066cc;'',
      asc ''            text-align: center;'',
      asc ''            border-bottom: 2px solid #0066cc;'',
      asc ''            padding-bottom: 0.5em;'',
      asc ''            margin: 1.5em 0 2em 0;'',
      asc ''            font-weight: bold;'',
      asc ''        }'',
      asc ''        .chapter-title {'',
      asc ''            font-size: 2em;'',
      asc ''            color: #0066cc;'',
      asc ''            text-align: center;'',
      asc ''            margin: 2em 0 1.5em 0;'',
      asc ''            font-weight: bold;'',
      asc ''            '' @ page_break_before,
      asc ''        }'',
      asc ''        h1 {'',
      asc ''            font-size: 2.5em;'',
      asc ''            color: #0066cc;'',
      asc ''            text-align: center;'',
      asc ''            border-bottom: 2px solid #0066cc;'',
      asc ''            padding-bottom: 0.5em;'',
      asc ''            margin: 1.5em 0 2em 0;'',
      asc ''            font-weight: bold;'',
      asc ''        }'',
      asc ''        h2 {'',
      asc ''            font-size: 2em;'',
      asc ''            color: #0066cc;'',
      asc ''            text-align: center;'',
      asc ''            margin: 2em 0 1.5em 0;'',
      asc ''            font-weight: bold;'',
      asc ''        }'',
      asc ''        p {'',
      asc ''            text-indent: 2em;'',
      asc ''            margin: 0.8em 0;'',
      asc ''            line-height: 1.8;'',
      asc ''        }'',
      asc ''        section {'',
      asc ''            display: block;'',
      asc ''            margin: 1em 0;'',
      asc ''        }'',
      asc ''    </style>'',
      asc ''</head>'',
      asc ''<body>'',
      asc ''    '' @ (if i = 0 then asc ''<h1 class=\"book-title\">'' @ book_title self @ asc ''</h1>'' else []),
      asc ''    <h1 class=\"chapter-title\">'' @ title chapter @ asc ''</h1>'',
      asc ''    '' @ join_nl content_paragraphs,
      asc ''</body>'',
      asc ''</html>'']))"

section \<open>Archive packager\<close>

subsection \<open>Files and operations that may fail\<close>

text \<open>
  An operation on the file system is a function from the world to an optional error
  and the world it leaves. Every input or output operation reads the fault planned for
  the current clock value and advances the clock. A failed \<open>open\<close> leaves the file as it
  was; a failed \<open>write\<close> leaves the part of the text that reached the file.
\<close>

type_synonym step = "world \<Rightarrow> error option \<times> world"

definition tick :: "world \<Rightarrow> world" where
  "tick w = w\<lparr>clock := clock w + 1\<rparr>"

definition seq :: "step \<Rightarrow> step \<Rightarrow> step" where
  "seq f g w = (case f w of (None, w') \<Rightarrow> g w' | (Some e, w') \<Rightarrow> (Some e, w'))"

fun run :: "step list \<Rightarrow> step" where
  "run [] w = (None, w)"
| "run (f # fs) w = seq f (run fs) w"

text \<open>\<open>with open(p, 'w') as f: f.write(text)\<close>.\<close>

definition write_file :: "env \<Rightarrow> pystr \<Rightarrow> pystr \<Rightarrow> step" where
  "write_file env p text w =
     (case faults env (clock w) of
        None \<Rightarrow> (None, tick (w\<lparr>files := (files w)(p \<mapsto> File text)\<rparr>))
      | Some OpenFails \<Rightarrow> (Some (OSError (clock w)), tick w)
      | Some (WriteFails k) \<Rightarrow>
          (Some (OSError (clock w)), tick (w\<lparr>files := (files w)(p \<mapsto> File (take k text))\<rparr>)))"







subsection \<open>Writing the parts\<close>







definition create_chapters_html :: "env \<Rightarrow> EpubGenerator \<Rightarrow> pystr \<Rightarrow> step" where
  "create_chapters_html env self temp_dir =
     run (map (\<lambda>(i, chapter).
                 write_file env (temp_dir @ asc ''/OEBPS/chapter_'' @ str_of_nat (i + 1) @ asc ''.xhtml'')
                   (chapter_html self i chapter))
              (enumerate 0 (chapters self)))"

definition create_image_pages :: "env \<Rightarrow> EpubGenerator \<Rightarrow> pystr \<Rightarrow> step" where
  "create_image_pages env self temp_dir =
     run (map (\<lambda>(i, img).
                 write_file env (temp_dir @ asc ''/OEBPS/image_page_'' @ str_of_nat (i + 1) @ asc ''.xhtml'')
                   (image_html i img))
              (enumerate 0 (images self)))"


subsection \<open>The archive\<close>

type_synonym zip_entries = "(pystr \<times> compression \<times> data) list"

text \<open>
  \<open>ZipFile.write(file_path, arcname, compress_type)\<close> on an archive opened with the
  default \<open>compression\<close>: without a \<open>compress_type\<close> the entry takes the default of the archive.
\<close>

definition zip_write ::
  "env \<Rightarrow> compression \<Rightarrow> pystr \<Rightarrow> pystr \<Rightarrow> compression option \<Rightarrow> zip_entries \<Rightarrow> world
     \<Rightarrow> error option \<times> zip_entries \<times> world" where
  "zip_write env compression file_path arcname compress_type es w =
     (case files w file_path of
        None \<Rightarrow> (Some (FileNotFoundError file_path), es, w)
      | Some d \<Rightarrow>
          (case faults env (clock w) of
             Some f \<Rightarrow> (Some (OSError (clock w)), es, tick w)
           | None \<Rightarrow>
               (None,
                es @ [(arcname, (case compress_type of None \<Rightarrow> compression | Some c \<Rightarrow> c), d)],
                tick w)))"

text \<open>\<open>os.path.relpath(p, start)\<close> for a path \<open>p\<close> that \<open>os.walk(start)\<close> yields.\<close>

definition relpath :: "pystr \<Rightarrow> pystr \<Rightarrow> pystr" where
  "relpath p start =
     (if startswith p (start @ asc ''/'') then drop (length start + 1) p else p)"

text \<open>The loop \<open>for file in files\<close> and the loop \<open>for root, dirs, files in os.walk(temp_dir)\<close>.\<close>

fun zip_files ::
  "env \<Rightarrow> pystr \<Rightarrow> pystr \<Rightarrow> pystr list \<Rightarrow> zip_entries \<Rightarrow> world
     \<Rightarrow> error option \<times> zip_entries \<times> world" where
  "zip_files env temp_dir root [] es w = (None, es, w)"
| "zip_files env temp_dir root (file # rest) es w =
     (if file = asc ''mimetype'' then zip_files env temp_dir root rest es w
      else
        (let file_path = path_join root file;
             arc_path = relpath file_path temp_dir
         in case zip_write env ZIP_DEFLATED file_path arc_path None es w of
              (None, es', w') \<Rightarrow> zip_files env temp_dir root rest es' w'
            | (Some e, es', w') \<Rightarrow> (Some e, es', w')))"

fun zip_walk ::
  "env \<Rightarrow> pystr \<Rightarrow> (pystr \<times> pystr list \<times> pystr list) list \<Rightarrow> zip_entries \<Rightarrow> world
     \<Rightarrow> error option \<times> zip_entries \<times> world" where
  "zip_walk env temp_dir [] es w = (None, es, w)"
| "zip_walk env temp_dir ((root, dirs, fs) # rest) es w =
     (case zip_files env temp_dir root fs es w of
        (None, es', w') \<Rightarrow> zip_walk env temp_dir rest es' w'
      | (Some e, es', w') \<Rightarrow> (Some e, es', w'))"

text \<open>
  \<open>_create_epub_zip\<close>. Opening the archive creates the output file; when the \<open>with\<close>
  block is left, normally or by an exception, the entries written so far are in it.
\<close>

definition create_epub_zip :: "env \<Rightarrow> pystr \<Rightarrow> pystr \<Rightarrow> step" where
  "create_epub_zip env temp_dir output_path w =
     (case faults env (clock w) of
        Some f \<Rightarrow> (Some (OSError (clock w)), tick w)
      | None \<Rightarrow>
          (let w0 = tick (w\<lparr>files := (files w)(output_path \<mapsto> Zip [])\<rparr>);
               (r, es, w1) =
                 (case zip_write env ZIP_DEFLATED (temp_dir @ asc ''/mimetype'') (asc ''mimetype'')
                         (Some ZIP_STORED) [] w0 of
                    (None, es', w') \<Rightarrow> zip_walk env temp_dir (os_walk env w' temp_dir) es' w'
                  | (Some e, es', w') \<Rightarrow> (Some e, es', w'))
           in (r, w1\<lparr>files := (files w1)(output_path \<mapsto> Zip es)\<rparr>)))"





section \<open>Notions used in the proofs\<close>

text \<open>A string is trimmed when it is empty or neither starts nor ends with whitespace.\<close>

definition trimmed :: "pystr \<Rightarrow> bool" where
  "trimmed l \<longleftrightarrow> l = [] \<or> (\<not> isspace (hd l) \<and> \<not> isspace (last l))"

text \<open>A list of lines without the empty lines at its two ends.\<close>

definition trim_lines :: "pystr list \<Rightarrow> pystr list" where
  "trim_lines ls = rev (dropWhile (\<lambda>l. l = []) (rev (dropWhile (\<lambda>l. l = []) ls)))"

abbreviation marker :: "pystr \<Rightarrow> bool" where
  "marker l \<equiv> is_chapter_title chapter_patterns l"

text \<open>
  The invariant of the scanning loop: the accumulator is a sequence of trimmed lines,
  none of them a chapter marker, each followed by a newline; and no chapter stored so
  far has a marker among the lines of its content.
\<close>

definition body_line :: "pystr \<Rightarrow> bool" where
  "body_line l \<longleftrightarrow> trimmed l \<and> NL \<notin> set l \<and> \<not> marker l"

definition acc_inv :: "pystr \<Rightarrow> bool" where
  "acc_inv acc \<longleftrightarrow> (\<exists>ls. acc = join_nl (ls @ [[]]) \<and> (\<forall>l\<in>set ls. body_line l))"

definition no_marker_lines :: "Chapter list \<Rightarrow> bool" where
  "no_marker_lines chs \<longleftrightarrow>
     (\<forall>ch\<in>set chs. \<forall>l\<in>set (split_nl (content ch)). \<not> marker l)"

definition scan_inv :: "scan \<Rightarrow> bool" where
  "scan_inv s \<longleftrightarrow> no_marker_lines (scanned s) \<and> acc_inv (current_chapter s)"

definition all_trimmed :: "Chapter list \<Rightarrow> bool" where
  "all_trimmed chs \<longleftrightarrow> (\<forall>ch\<in>set chs. strip (content ch) = content ch)"


text \<open>
  A text in which no \<open><\<close> starts \<open><d\<close> or \<open></d\<close>, and whose last two characters are
  not \<open><\<close>: neither pattern of \<open>_sanitize_content\<close> matches in it, whatever follows.
\<close>

fun no_div_tag :: "pystr \<Rightarrow> bool" where
  "no_div_tag (c # d # e # cs) =
     (\<not> (c = 60 \<and> (d = 100 \<or> (d = 47 \<and> e = 100))) \<and> no_div_tag (d # e # cs))"
| "no_div_tag [c, d] = (c \<noteq> 60 \<and> d \<noteq> 60)"
| "no_div_tag [c] = (c \<noteq> 60)"
| "no_div_tag [] = True"

text \<open>
  The files that a directory walk yields for the archive, each with the directory it
  is in: every file but those named \<open>mimetype\<close>. The entry written for one of them. A
  walk is complete for a directory when it yields every regular file below it.
\<close>

definition walked_files :: "(pystr \<times> pystr list \<times> pystr list) list \<Rightarrow> (pystr \<times> pystr) list" where
  "walked_files walk =
     concat (map (\<lambda>(root, dirs, fs). map (Pair root) (filter (\<lambda>f. f \<noteq> asc ''mimetype'') fs)) walk)"

definition deflated_entry ::
  "(pystr \<Rightarrow> data option) \<Rightarrow> pystr \<Rightarrow> pystr \<times> pystr \<Rightarrow> pystr \<times> compression \<times> data" where
  "deflated_entry disk temp_dir rf =
     (relpath (path_join (fst rf) (snd rf)) temp_dir, ZIP_DEFLATED,
      the (disk (path_join (fst rf) (snd rf))))"

definition walk_complete ::
  "(pystr \<times> pystr list \<times> pystr list) list \<Rightarrow> (pystr \<Rightarrow> data option) \<Rightarrow> pystr \<Rightarrow> bool" where
  "walk_complete walk disk d \<longleftrightarrow>
     (\<forall>p. disk p \<noteq> None \<and> startswith p (d @ asc ''/'') \<longrightarrow>
          (\<exists>x\<in>set walk. \<exists>f\<in>set (snd (snd x)). p = path_join (fst x) f))"

subsection \<open>Example inputs\<close>

text \<open>A book whose first line is \<open><b>T</b>\<close>, read from \<open>book.txt\<close>.\<close>

definition markup_book :: EpubGenerator where
  "markup_book = read_txt_file (asc ''book'') (asc ''<b>T</b>'' @ [NL] @ asc ''text'') (init [])"

text \<open>
  A scratch directory holding the declaration file and the package document, and
  environments: one in which nothing fails, one in which the fourth operation fails
  (the writing of \<open>container.xml\<close>), and one in which every operation from the twelfth
  on fails (the twelfth is \<open>shutil.rmtree\<close>, for a book without chapters and images).
  A stale scratch directory in which \<open>META-INF\<close> is a regular file.
\<close>

definition example_world :: world where
  "example_world =
     \<lparr>files = [asc ''temp_epub/mimetype'' \<mapsto> File (asc ''application/epub+zip''),
               asc ''temp_epub/OEBPS/content.opf'' \<mapsto> File (asc ''<package/>'')],
      folders = {asc ''temp_epub'', asc ''temp_epub/OEBPS''},
      clock = 0\<rparr>"

definition example_env :: env where
  "example_env =
     \<lparr>today = asc ''2024-01-01'',
      guess_type = (\<lambda>p. None),
      os_walk = (\<lambda>w d. [(asc ''temp_epub'', [asc ''OEBPS''], [asc ''mimetype'']),
                         (asc ''temp_epub/OEBPS'', [], [asc ''content.opf''])]),
      faults = (\<lambda>n. None),
      swept = (\<lambda>p. False)\<rparr>"




section \<open>Facts about Python strings\<close>

lemmas seg_eval =
  read_txt_file_def title_line_def title_fallback_def scan_text_def scan_line_def
  append_chapter_def strip_def lstrip_def rstrip_def isspace_def NL_def init_def default_title_def
  asc_def chapter_patterns_def pattern1_def pattern2_def pattern3_def pattern4_def DI_def
  ZHANG_def LBRACKET_def RBRACKET_def numeral_char_def preface_title_def startswith_def
  rest_of_line_def isdecimal_def nd_zeros_def Let_def

lemma isspace_NL: "isspace NL"
  by (simp add: isspace_def NL_def)

lemma rstrip_prefix: "\<exists>ws. t = rstrip t @ ws \<and> (\<forall>c\<in>set ws. isspace c)"
proof -
  have "rev t = takeWhile isspace (rev t) @ dropWhile isspace (rev t)" by simp
  then have "rev (rev t) = rev (takeWhile isspace (rev t) @ dropWhile isspace (rev t))"
    by simp
  then have "t = rev (dropWhile isspace (rev t)) @ rev (takeWhile isspace (rev t))"
    by (simp only: rev_append rev_rev_ident)
  moreover have "\<forall>c\<in>set (rev (takeWhile isspace (rev t))). isspace c"
    by (auto dest: set_takeWhileD)
  ultimately show ?thesis unfolding rstrip_def by blast
qed

lemma rstrip_last: "rstrip t \<noteq> [] \<Longrightarrow> \<not> isspace (last (rstrip t))"
proof -
  assume a: "rstrip t \<noteq> []"
  then have "dropWhile isspace (rev t) \<noteq> []" by (simp add: rstrip_def)
  then have "\<not> isspace (hd (dropWhile isspace (rev t)))" by (rule hd_dropWhile)
  moreover have "last (rstrip t) = hd (dropWhile isspace (rev t))"
    using a by (simp add: rstrip_def last_rev)
  ultimately show ?thesis by simp
qed

lemma trimmed_strip: "trimmed (strip s)"
proof (cases "strip s = []")
  case True
  then show ?thesis by (simp add: trimmed_def)
next
  case False
  let ?t = "lstrip s"
  from False have ne: "rstrip ?t \<noteq> []" by (simp add: strip_def)
  have l: "\<not> isspace (last (rstrip ?t))" using ne by (rule rstrip_last)
  obtain ws where ws: "?t = rstrip ?t @ ws" using rstrip_prefix by blast
  have "hd (rstrip ?t @ ws) = hd (rstrip ?t)" using ne by simp
  then have h: "hd ?t = hd (rstrip ?t)" using ws by simp
  have "?t \<noteq> []" using ws ne by auto
  then have "\<not> isspace (hd ?t)" unfolding lstrip_def by (rule hd_dropWhile)
  then show ?thesis using l h by (simp add: trimmed_def strip_def)
qed

lemma dropWhile_hd_id: "l \<noteq> [] \<Longrightarrow> \<not> P (hd l) \<Longrightarrow> dropWhile P l = l"
  by (cases l) auto

lemma strip_trimmed: "trimmed l \<Longrightarrow> strip l = l"
proof (cases "l = []")
  case True
  then show ?thesis by (simp add: strip_def lstrip_def rstrip_def)
next
  case False
  assume "trimmed l"
  with False have h: "\<not> isspace (hd l)" and t: "\<not> isspace (last l)"
    by (auto simp: trimmed_def)
  have 1: "lstrip l = l" unfolding lstrip_def using False h by (rule dropWhile_hd_id)
  have "rev l \<noteq> []" using False by simp
  moreover have "\<not> isspace (hd (rev l))" using t False by (simp add: hd_rev)
  ultimately have "dropWhile isspace (rev l) = rev l" by (rule dropWhile_hd_id)
  then have "rstrip l = l" by (simp add: rstrip_def)
  with 1 show ?thesis by (simp add: strip_def)
qed

lemma strip_idem: "strip (strip s) = strip s"
  by (rule strip_trimmed[OF trimmed_strip])

lemma set_strip: "set (strip s) \<subseteq> set s"
  unfolding strip_def lstrip_def rstrip_def
  by (auto dest!: set_dropWhileD)

lemma split_nl_nonempty: "split_nl t \<noteq> []"
  by (induction t) (auto split: list.splits)

lemma split_nl_no_nl: "NL \<notin> set l \<Longrightarrow> split_nl l = [l]"
  by (induction l) auto

lemma split_nl_append: "split_nl (a @ NL # b) = split_nl a @ split_nl b"
  by (induction a) (auto split: list.splits simp: split_nl_nonempty)

lemma split_nl_lines: "l \<in> set (split_nl t) \<Longrightarrow> NL \<notin> set l"
proof (induction t arbitrary: l)
  case Nil
  then show ?case by simp
next
  case (Cons c t)
  then show ?case
    by (cases "split_nl t") (auto split: if_splits)
qed

lemma join_nl_Cons: "ls \<noteq> [] \<Longrightarrow> join_nl (l # ls) = l @ NL # join_nl ls"
  by (cases ls) simp_all

lemma join_nl_snoc: "ls \<noteq> [] \<Longrightarrow> join_nl (ls @ [l]) = join_nl ls @ NL # l"
proof (induction ls)
  case Nil
  then show ?case by simp
next
  case (Cons a ls)
  show ?case
  proof (cases "ls = []")
    case True
    then show ?thesis by simp
  next
    case False
    then show ?thesis using Cons.IH by (simp add: join_nl_Cons)
  qed
qed

lemma join_nl_append:
  "xs \<noteq> [] \<Longrightarrow> ys \<noteq> [] \<Longrightarrow> join_nl (xs @ ys) = join_nl xs @ NL # join_nl ys"
proof (induction xs)
  case Nil
  then show ?case by simp
next
  case (Cons a xs)
  show ?case
  proof (cases "xs = []")
    case True
    then show ?thesis using Cons.prems by (simp add: join_nl_Cons)
  next
    case False
    then show ?thesis using Cons by (simp add: join_nl_Cons)
  qed
qed

lemma tail_of_join_Cons:
  "\<exists>pre. join_nl ls = pre @ t \<Longrightarrow> ls \<noteq> [] \<Longrightarrow> \<exists>pre. join_nl (x # ls) = pre @ t"
proof -
  assume "\<exists>pre. join_nl ls = pre @ t" and ne: "ls \<noteq> []"
  then obtain pre where "join_nl ls = pre @ t" by blast
  then have "join_nl (x # ls) = (x @ NL # pre) @ t" using ne by (simp add: join_nl_Cons)
  then show ?thesis by blast
qed

lemma split_join:
  "\<forall>l\<in>set ls. NL \<notin> set l \<Longrightarrow> ls \<noteq> [] \<Longrightarrow> split_nl (join_nl ls) = ls"
proof (induction ls)
  case Nil
  then show ?case by simp
next
  case (Cons l ls)
  show ?case
  proof (cases "ls = []")
    case True
    then show ?thesis using Cons.prems by (simp add: split_nl_no_nl)
  next
    case False
    then show ?thesis using Cons
      by (simp add: join_nl_Cons split_nl_append split_nl_no_nl)
  qed
qed

text \<open>Stripping a text whose lines are trimmed removes the empty lines at its ends.\<close>

lemma lstrip_join:
  "\<forall>l\<in>set ls. trimmed l \<Longrightarrow> lstrip (join_nl ls) = join_nl (dropWhile (\<lambda>l. l = []) ls)"
proof (induction ls)
  case Nil
  then show ?case by (simp add: lstrip_def)
next
  case (Cons l ls)
  show ?case
  proof (cases "l = []")
    case True
    show ?thesis
    proof (cases "ls = []")
      case True
      with \<open>l = []\<close> show ?thesis by (simp add: lstrip_def)
    next
      case False
      have "lstrip (join_nl (l # ls)) = lstrip (join_nl ls)"
        using False True by (simp add: join_nl_Cons lstrip_def isspace_NL)
      then show ?thesis using Cons True by simp
    qed
  next
    case False
    then have h: "\<not> isspace (hd l)" using Cons.prems by (auto simp: trimmed_def)
    have "join_nl (l # ls) \<noteq> []" using False by (cases ls) auto
    moreover have "hd (join_nl (l # ls)) = hd l" using False by (cases ls) auto
    ultimately have "dropWhile isspace (join_nl (l # ls)) = join_nl (l # ls)"
      using h by (simp add: dropWhile_hd_id)
    then show ?thesis using False by (simp add: lstrip_def)
  qed
qed

lemma rev_join_nl: "rev (join_nl ls) = join_nl (map rev (rev ls))"
proof (induction ls)
  case Nil
  then show ?case by simp
next
  case (Cons l ls)
  show ?case
  proof (cases "ls = []")
    case True
    then show ?thesis by simp
  next
    case False
    then show ?thesis using Cons by (simp add: join_nl_Cons join_nl_snoc)
  qed
qed

lemma trimmed_rev: "trimmed (rev l) = trimmed l"
  by (auto simp: trimmed_def hd_rev last_rev)

lemma rstrip_rev: "rstrip s = rev (lstrip (rev s))"
  by (simp add: rstrip_def lstrip_def)

lemma set_trim_lines: "set (trim_lines ls) \<subseteq> set ls"
  unfolding trim_lines_def by (auto dest!: set_dropWhileD)

lemma rstrip_join:
  assumes "\<forall>l\<in>set ls. trimmed l"
  shows "rstrip (join_nl ls) = join_nl (rev (dropWhile (\<lambda>l. l = []) (rev ls)))"
proof -
  have t: "\<forall>l\<in>set (map rev (rev ls)). trimmed l" using assms by (simp add: trimmed_rev)
  have "rstrip (join_nl ls) = rev (lstrip (join_nl (map rev (rev ls))))"
    by (simp add: rstrip_rev rev_join_nl)
  also have "\<dots> = rev (join_nl (dropWhile (\<lambda>l. l = []) (map rev (rev ls))))"
    using lstrip_join[OF t] by simp
  also have "dropWhile (\<lambda>l. l = []) (map rev (rev ls)) = map rev (dropWhile (\<lambda>l. l = []) (rev ls))"
    by (simp add: dropWhile_map comp_def)
  also have "rev (join_nl (map rev (dropWhile (\<lambda>l. l = []) (rev ls)))) =
             join_nl (rev (dropWhile (\<lambda>l. l = []) (rev ls)))"
    by (simp add: rev_join_nl rev_map comp_def)
  finally show ?thesis .
qed

lemma strip_join:
  assumes "\<forall>l\<in>set ls. trimmed l"
  shows "strip (join_nl ls) = join_nl (trim_lines ls)"
proof -
  have "\<forall>l\<in>set (dropWhile (\<lambda>l. l = []) ls). trimmed l"
    using assms by (auto dest: set_dropWhileD)
  then show ?thesis
    by (simp add: strip_def lstrip_join[OF assms] rstrip_join trim_lines_def)
qed

lemma contains_prefix: "contains (p @ b) p"
proof (cases "p @ b")
  case Nil
  then show ?thesis by simp
next
  case (Cons a l)
  have "startswith (p @ b) p" by (simp add: startswith_def)
  then show ?thesis unfolding Cons by simp
qed

lemma contains_skip: "contains b p \<Longrightarrow> contains (a @ b) p"
  by (induction a) auto

lemma contains_join: "l \<in> set ls \<Longrightarrow> contains (join_nl ls) l"
proof (induction ls rule: join_nl.induct)
  case 1
  then show ?case by simp
next
  case (2 x)
  then show ?case using contains_prefix[of l "[]"] by simp
next
  case (3 x y ys)
  show ?case
  proof (cases "l = x")
    case True
    then show ?thesis using contains_prefix[of x "NL # join_nl (y # ys)"] by simp
  next
    case False
    with 3 have "contains (join_nl (y # ys)) l" by simp
    then have "contains ((x @ [NL]) @ join_nl (y # ys)) l" by (rule contains_skip)
    then show ?thesis by simp
  qed
qed

section \<open>Title extraction\<close>

lemma chapters_title_line: "chapters (fst (title_line t self)) = chapters self"
  by (simp add: title_line_def Let_def)

lemma chapters_title_fallback: "chapters (title_fallback b self) = chapters self"
  by (simp add: title_fallback_def)

lemma book_title_read:
  "book_title (read_txt_file b t self) = book_title (title_fallback b (fst (title_line t self)))"
  by (simp add: read_txt_file_def Let_def split: prod.splits)

text \<open>
  Claim C8 as stated fails: the base file name replaces the title not only when the
  trimmed first line is empty but also when it is the placeholder title of a new
  generator. Here the first line is that placeholder, and the title becomes \<open>book\<close>.
\<close>

theorem title_placeholder_counterexample:
  "strip (hd (split_nl (default_title @ [NL] @ asc ''abc''))) = default_title \<and>
   default_title \<noteq> [] \<and>
   book_title (read_txt_file (asc ''book'') (default_title @ [NL] @ asc ''abc'') (init [])) = asc ''book'' \<and>
   asc ''book'' \<noteq> default_title"
  by (simp add: seg_eval)

text \<open>
  Claim C8, amended: the trimmed first line of the text becomes the title, except when
  it is empty or equal to the placeholder title; in these two cases, and when the base
  file name is not empty, the base file name becomes the title.
\<close>

theorem title_extraction:
  "book_title (read_txt_file book_name text self) =
     (if (strip (hd (split_nl text)) = [] \<or> strip (hd (split_nl text)) = default_title) \<and> book_name \<noteq> []
      then book_name
      else strip (hd (split_nl text)))"
  by (simp add: book_title_read title_line_def title_fallback_def Let_def split_nl_nonempty)

theorem title_extraction_witness:
  "book_title (read_txt_file (asc ''book'') ([NL] @ asc ''abc'') (init [])) = asc ''book'' \<and>
   book_title (read_txt_file (asc ''book'') (asc '' My Title '' @ [NL] @ asc ''abc'') (init [])) = asc ''My Title''"
  using title_extraction[of "asc ''book''" "[NL] @ asc ''abc''" "init []"]
    title_extraction[of "asc ''book''" "asc '' My Title '' @ [NL] @ asc ''abc''" "init []"]
  by (simp add: strip_def lstrip_def rstrip_def isspace_def NL_def asc_def default_title_def)

section \<open>Segmentation\<close>

lemma chapters_read:
  "chapters (read_txt_file b t self) =
    (let body = snd (title_line t self); chs = scan_text (chapters self) body in
     if chs = [] then [\<lparr>title = book_title (read_txt_file b t self), content = strip body\<rparr>] else chs)"
  by (simp add: read_txt_file_def Let_def title_line_def title_fallback_def split_nl_nonempty
      split: prod.splits)

text \<open>
  Claim C1: after \<open>read_txt_file\<close> the list of chapters is not empty. When the loop and
  the append at the end of the input leave no chapter, the list is exactly one chapter,
  whose title is the book title and whose content is the trimmed text after the title
  line; otherwise it is what the loop and the final append produced.
\<close>

theorem chapters_nonempty:
  "chapters (read_txt_file book_name text self) \<noteq> [] \<and>
   chapters (read_txt_file book_name text self) =
     (if scan_text (chapters self) (join_nl (tl (split_nl text))) = [] then
        [\<lparr>title = book_title (read_txt_file book_name text self),
          content = strip (join_nl (tl (split_nl text)))\<rparr>]
      else scan_text (chapters self) (join_nl (tl (split_nl text))))"
  by (simp add: chapters_read Let_def title_line_def split_nl_nonempty)

theorem chapters_nonempty_witness:
  "chapters (read_txt_file (asc ''book'') (asc ''Title'' @ [NL] @ asc ''  '' @ [NL]) (init [])) =
     [\<lparr>title = asc ''Title'', content = []\<rparr>]"
  using chapters_nonempty[of "asc ''book''" "asc ''Title'' @ [NL] @ asc ''  '' @ [NL]" "init []"]
  by (simp add: seg_eval)

lemma all_trimmed_append_chapter: "all_trimmed chs \<Longrightarrow> all_trimmed (append_chapter chs t acc)"
  by (simp add: all_trimmed_def append_chapter_def strip_idem)

lemma all_trimmed_scan_line: "all_trimmed (scanned s) \<Longrightarrow> all_trimmed (scanned (scan_line s l))"
  by (simp add: scan_line_def Let_def all_trimmed_append_chapter)

lemma all_trimmed_scan_lines: "all_trimmed (scanned s) \<Longrightarrow> all_trimmed (scanned (scan_lines s ls))"
  by (induction ls arbitrary: s) (simp_all add: all_trimmed_scan_line)

lemma all_trimmed_scan_text: "all_trimmed chs \<Longrightarrow> all_trimmed (scan_text chs body)"
  by (simp add: scan_text_def Let_def all_trimmed_append_chapter all_trimmed_scan_lines)

text \<open>
  Claim C10: every chapter that \<open>read_txt_file\<close> stores has a content equal to its
  trimmed form, whether the chapter was closed by a marker, appended at the end of the
  input or synthesised: the content is empty, or neither its first nor its last
  character is whitespace (a newline is). The generator it is called on has trimmed
  chapters, as a new generator (with none) has.
\<close>

theorem contents_trimmed:
  assumes "\<forall>ch\<in>set (chapters self). strip (content ch) = content ch"
  shows "\<forall>ch\<in>set (chapters (read_txt_file book_name text self)).
           strip (content ch) = content ch \<and>
           (content ch = [] \<or> (\<not> isspace (hd (content ch)) \<and> \<not> isspace (last (content ch))))"
proof -
  have "all_trimmed (chapters self)" using assms by (simp add: all_trimmed_def)
  then have "all_trimmed (scan_text (chapters self) (snd (title_line text self)))"
    by (rule all_trimmed_scan_text)
  then have "all_trimmed (chapters (read_txt_file book_name text self))"
    by (simp add: chapters_read Let_def all_trimmed_def strip_idem)
  then have s: "\<forall>ch\<in>set (chapters (read_txt_file book_name text self)). strip (content ch) = content ch"
    by (simp add: all_trimmed_def)
  show ?thesis
  proof
    fix ch
    assume "ch \<in> set (chapters (read_txt_file book_name text self))"
    with s have e: "strip (content ch) = content ch" by simp
    have "trimmed (strip (content ch))" by (rule trimmed_strip)
    then have "trimmed (content ch)" using e by simp
    then show "strip (content ch) = content ch \<and>
           (content ch = [] \<or> (\<not> isspace (hd (content ch)) \<and> \<not> isspace (last (content ch))))"
      using e by (simp add: trimmed_def)
  qed
qed

theorem contents_trimmed_witness:
  "list_all (\<lambda>ch. strip (content ch) = content ch \<and>
              (content ch = [] \<or> (\<not> isspace (hd (content ch)) \<and> \<not> isspace (last (content ch)))))
     (chapters (read_txt_file (asc ''book'')
        (asc ''Title'' @ [NL] @ asc ''  first  '' @ [NL, NL] @ asc ''1. One'' @ [NL] @ asc '' a '' @ [NL, NL])
        (init [])))"
  using contents_trimmed[of "init []" "asc ''book''"
      "asc ''Title'' @ [NL] @ asc ''  first  '' @ [NL, NL] @ asc ''1. One'' @ [NL] @ asc '' a '' @ [NL, NL]"]
  by (simp add: init_def list_all_iff)

subsection \<open>Marker lines\<close>

lemma not_marker_Nil: "\<not> marker []"
  by (simp add: chapter_patterns_def pattern1_def pattern2_def pattern3_def pattern4_def
      startswith_def asc_def)

lemma body_line_Nil: "body_line []"
  by (simp add: body_line_def trimmed_def not_marker_Nil)

lemma acc_inv_Nil: "acc_inv []"
  unfolding acc_inv_def by (rule exI[of _ "[]"]) simp

lemma acc_inv_line: "acc_inv acc \<Longrightarrow> body_line l \<Longrightarrow> acc_inv (acc @ l @ [NL])"
proof -
  assume "acc_inv acc" and l: "body_line l"
  then obtain ls where ls: "acc = join_nl (ls @ [[]])" "\<forall>l\<in>set ls. body_line l"
    by (auto simp: acc_inv_def)
  have "acc @ l @ [NL] = join_nl ((ls @ [l]) @ [[]])"
  proof (cases "ls = []")
    case True
    then show ?thesis using ls by simp
  next
    case False
    then show ?thesis using ls by (simp add: join_nl_snoc join_nl_append)
  qed
  moreover have "\<forall>x\<in>set (ls @ [l]). body_line x" using ls l by simp
  ultimately show ?thesis unfolding acc_inv_def by blast
qed

lemma acc_inv_blank: "acc_inv acc \<Longrightarrow> acc_inv (acc @ [NL])"
  using acc_inv_line[of acc "[]"] by (simp add: body_line_Nil)

lemma acc_inv_lines:
  assumes "acc_inv acc" and "l \<in> set (split_nl (strip acc))"
  shows "\<not> marker l"
proof -
  obtain ls where ls: "acc = join_nl (ls @ [[]])" "\<forall>l\<in>set ls. body_line l"
    using assms(1) by (auto simp: acc_inv_def)
  let ?ls = "ls @ [[]]"
  have b: "\<forall>l\<in>set ?ls. body_line l" using ls by (simp add: body_line_Nil)
  then have t: "\<forall>l\<in>set ?ls. trimmed l" by (simp add: body_line_def)
  have s: "strip acc = join_nl (trim_lines ?ls)" using ls strip_join[OF t] by simp
  have sub: "set (trim_lines ?ls) \<subseteq> set ?ls" by (rule set_trim_lines)
  show ?thesis
  proof (cases "trim_lines ?ls = []")
    case True
    then have "strip acc = []" using s by simp
    then show ?thesis using assms(2) by (simp add: not_marker_Nil)
  next
    case False
    have "\<forall>l\<in>set (trim_lines ?ls). NL \<notin> set l" using sub b by (auto simp: body_line_def)
    then have "split_nl (strip acc) = trim_lines ?ls" using s False by (simp add: split_join)
    then have "l \<in> set ?ls" using assms(2) sub by auto
    then show ?thesis using b by (auto simp: body_line_def)
  qed
qed

lemma no_marker_append_chapter:
  "no_marker_lines chs \<Longrightarrow> acc_inv acc \<Longrightarrow> no_marker_lines (append_chapter chs t acc)"
  by (auto simp: no_marker_lines_def append_chapter_def dest: acc_inv_lines)

lemma scan_inv_line:
  assumes "scan_inv s" and "NL \<notin> set raw"
  shows "scan_inv (scan_line s raw)"
proof -
  have n: "NL \<notin> set (strip raw)" using assms(2) set_strip by blast
  show ?thesis
  proof (cases "strip raw = []")
    case True
    then show ?thesis using assms(1) by (simp add: scan_line_def scan_inv_def acc_inv_blank)
  next
    case False
    show ?thesis
    proof (cases "marker (strip raw)")
      case True
      then show ?thesis using assms(1) False
        by (simp add: scan_line_def scan_inv_def acc_inv_Nil no_marker_append_chapter)
    next
      case m: False
      have "body_line (strip raw)" using n m by (simp add: body_line_def trimmed_strip)
      then show ?thesis using assms(1) False m
        by (simp add: scan_line_def scan_inv_def acc_inv_line)
    qed
  qed
qed

lemma scan_inv_lines:
  "scan_inv s \<Longrightarrow> \<forall>l\<in>set ls. NL \<notin> set l \<Longrightarrow> scan_inv (scan_lines s ls)"
  by (induction ls arbitrary: s) (simp_all add: scan_inv_line)

lemma no_marker_scan_text:
  assumes "no_marker_lines chs"
  shows "no_marker_lines (scan_text chs body)"
proof -
  let ?s0 = "\<lparr>scanned = chs, current_chapter = [], chapter_title = preface_title, chapter_count = 0\<rparr>"
  have "scan_inv ?s0" using assms by (simp add: scan_inv_def acc_inv_Nil)
  moreover have "\<forall>l\<in>set (split_nl body). NL \<notin> set l" using split_nl_lines by blast
  ultimately have "scan_inv (scan_lines ?s0 (split_nl body))" by (rule scan_inv_lines)
  then show ?thesis
    by (simp add: scan_text_def Let_def scan_inv_def no_marker_append_chapter)
qed

text \<open>
  Claim C2 as stated fails in its last part: when the loop stores no chapter, the
  synthetic chapter holds the whole text after the title line, marker lines included.
  Here the text after the title \<open>T\<close> is the single marker line of a first chapter.
\<close>

theorem marker_in_content_counterexample:
  "is_chapter_title chapter_patterns [31532, 19968, 31456] \<and>
   chapters (read_txt_file (asc ''book'') [84, NL, 31532, 19968, 31456] (init [])) =
     [\<lparr>title = [84], content = [31532, 19968, 31456]\<rparr>]"
  by (simp add: seg_eval)

text \<open>
  Claim C2, amended: a line whose trimmed form matches one of the four patterns, tried
  in their order, closes the accumulating chapter, appending it only if its content is
  not blank after trimming, and starts a new chapter with the trimmed line as title and
  an empty accumulator; the line is added to no accumulator, so it is a line of the
  content of no chapter that the loop or the append at the end of the input stores.
  (The synthetic chapter of the degenerate case is not among these.)
\<close>

theorem marker_line:
  assumes "is_chapter_title chapter_patterns (strip raw)"
  shows "scan_line s raw =
           s\<lparr>scanned := (if strip (current_chapter s) \<noteq> []
                          then scanned s @ [\<lparr>title = chapter_title s, content = strip (current_chapter s)\<rparr>]
                          else scanned s),
             chapter_title := strip raw,
             current_chapter := [],
             chapter_count := chapter_count s + 1\<rparr> \<and>
         (\<forall>ch\<in>set (scan_text [] body). strip raw \<notin> set (split_nl (content ch)))"
proof -
  have ne: "strip raw \<noteq> []" using assms not_marker_Nil by auto
  have "no_marker_lines (scan_text [] body)"
    by (rule no_marker_scan_text) (simp add: no_marker_lines_def)
  then have "\<forall>ch\<in>set (scan_text [] body). strip raw \<notin> set (split_nl (content ch))"
    using assms by (auto simp: no_marker_lines_def)
  then show ?thesis using assms ne by (simp add: scan_line_def append_chapter_def)
qed

theorem marker_line_witness:
  "scan_line \<lparr>scanned = [], current_chapter = asc ''intro'' @ [NL], chapter_title = preface_title,
              chapter_count = 0\<rparr> [32, 31532, 49, 31456, 32, 24320, 31471, 32] =
     \<lparr>scanned = [\<lparr>title = preface_title, content = asc ''intro''\<rparr>], current_chapter = [],
      chapter_title = [31532, 49, 31456, 32, 24320, 31471], chapter_count = 1\<rparr> \<and>
   list_all (\<lambda>ch. [31532, 49, 31456, 32, 24320, 31471] \<notin> set (split_nl (content ch)))
     (scan_text [] (asc ''intro'' @ [NL, 31532, 49, 31456, 32, 24320, 31471, NL] @ asc ''one''))"
  using marker_line[of "[32, 31532, 49, 31456, 32, 24320, 31471, 32]"
      "\<lparr>scanned = [], current_chapter = asc ''intro'' @ [NL], chapter_title = preface_title,
        chapter_count = 0\<rparr>"
      "asc ''intro'' @ [NL, 31532, 49, 31456, 32, 24320, 31471, NL] @ asc ''one''"]
  by (simp add: seg_eval list_all_iff)

section \<open>Blank lines\<close>

lemma paragraphs_append: "paragraphs (xs @ ys) acc = paragraphs ys (paragraphs xs acc)"
  by (induction xs arbitrary: acc) (simp_all add: Let_def)

lemma paragraphs_blank:
  "paragraphs (split_nl (a @ NL # NL # b)) acc = paragraphs (split_nl (a @ NL # b)) acc"
proof -
  have "split_nl (a @ NL # NL # b) = split_nl a @ [] # split_nl b"
    using split_nl_append[of a "NL # b"] by simp
  moreover have "strip [] = []" by (simp add: strip_def lstrip_def rstrip_def)
  ultimately show ?thesis by (simp add: split_nl_append paragraphs_append Let_def)
qed

text \<open>
  Claim C6 as stated fails in its second part: the page of a chapter has one paragraph
  for each line that is not blank and nothing for a blank line. The chapter read here
  keeps the blank line between \<open>a\<close> and \<open>b\<close> in its content, its paragraphs are those of
  \<open>a\<close> and \<open>b\<close> alone, and its page is the page of the content without the blank line.
\<close>

theorem blank_line_rendering_counterexample:
  "chapters (read_txt_file (asc ''book'') [84, NL, 31532, 19968, 31456, NL, 97, NL, NL, 98] (init [])) =
     [\<lparr>title = [31532, 19968, 31456], content = [97, NL, NL, 98]\<rparr>] \<and>
   paragraphs (split_nl [97, NL, NL, 98]) [] = [asc ''<p>a</p>'', asc ''<p>b</p>''] \<and>
   chapter_html (init []) 0 \<lparr>title = [31532, 19968, 31456], content = [97, NL, NL, 98]\<rparr> =
   chapter_html (init []) 0 \<lparr>title = [31532, 19968, 31456], content = [97, NL, 98]\<rparr>"
proof -
  have 1: "chapters (read_txt_file (asc ''book'') [84, NL, 31532, 19968, 31456, NL, 97, NL, NL, 98] (init [])) =
     [\<lparr>title = [31532, 19968, 31456], content = [97, NL, NL, 98]\<rparr>]"
    by (simp add: seg_eval)
  have 2: "paragraphs (split_nl [97, NL, NL, 98]) [] = [asc ''<p>a</p>'', asc ''<p>b</p>'']"
    by (simp add: seg_eval)
  have p: "paragraphs (split_nl [97, NL, NL, 98]) [] = paragraphs (split_nl [97, NL, 98]) []"
    using paragraphs_blank[of "[97]" "[98]" "[]"] by simp
  have 3: "chapter_html (init []) 0 \<lparr>title = [31532, 19968, 31456], content = [97, NL, NL, 98]\<rparr> =
      chapter_html (init []) 0 \<lparr>title = [31532, 19968, 31456], content = [97, NL, 98]\<rparr>"
    unfolding chapter_html_def Let_def Chapter.select_convs p by (rule refl)
  from 1 2 3 show ?thesis by (simp only: simp_thms)
qed

lemma paragraphs_eq:
  "paragraphs ls acc =
     acc @ map (\<lambda>l. asc ''<p>'' @ l @ asc ''</p>'')
             (filter (\<lambda>l. l \<noteq> [] \<and> \<not> startswith l [91, 22270, 29255] \<and> \<not> startswith l (asc ''![''))
                (map strip ls))"
  by (induction ls arbitrary: acc) (simp_all add: Let_def)

lemma page_tail: "\<exists>pre. join_nl [ind @ J, b, c] = pre @ J @ NL # b @ NL # c"
proof -
  have "join_nl [ind @ J, b, c] = ind @ J @ NL # b @ NL # c" by simp
  then show ?thesis by blast
qed

lemma under_function: "\<exists>pre. x = pre @ t \<Longrightarrow> \<exists>head. f x = f (head @ t)"
  by auto

text \<open>
  Claim C6, amended: a blank line appends a bare newline to the content accumulator
  and changes nothing else of the scan, so it starts no chapter. The page of a chapter
  is, up to the renaming of \<open>div\<close> tags, a head followed by one paragraph for each line
  of the content that is not blank after trimming and is not an image reference, in
  their order, followed by the two closing lines; a blank line produces no markup, and
  the page is the same as for the content without the blank line.
\<close>

theorem blank_line:
  assumes "strip raw = []"
  shows "scan_line s raw = s\<lparr>current_chapter := current_chapter s @ [NL]\<rparr> \<and>
         (\<exists>head. chapter_html self i chapter =
            sanitize_content
              (head @
               join_nl (map (\<lambda>l. asc ''<p>'' @ l @ asc ''</p>'')
                          (filter (\<lambda>l. l \<noteq> [] \<and> \<not> startswith l [91, 22270, 29255] \<and>
                                       \<not> startswith l (asc ''![''))
                             (map strip (split_nl (content chapter))))) @
               NL # asc ''</body>'' @ NL # asc ''</html>'')) \<and>
         chapter_html self i (chapter\<lparr>content := a @ [NL, NL] @ b\<rparr>) =
         chapter_html self i (chapter\<lparr>content := a @ [NL] @ b\<rparr>)"
proof -
  have 1: "scan_line s raw = s\<lparr>current_chapter := current_chapter s @ [NL]\<rparr>"
    using assms by (simp add: scan_line_def)
  have q: "paragraphs (split_nl (content chapter)) [] =
        map (\<lambda>l. asc ''<p>'' @ l @ asc ''</p>'')
          (filter (\<lambda>l. l \<noteq> [] \<and> \<not> startswith l [91, 22270, 29255] \<and> \<not> startswith l (asc ''![''))
             (map strip (split_nl (content chapter))))"
    by (simp add: paragraphs_eq)
  have 2: "\<exists>head. chapter_html self i chapter =
            sanitize_content
              (head @
               join_nl (map (\<lambda>l. asc ''<p>'' @ l @ asc ''</p>'')
                          (filter (\<lambda>l. l \<noteq> [] \<and> \<not> startswith l [91, 22270, 29255] \<and>
                                       \<not> startswith l (asc ''![''))
                             (map strip (split_nl (content chapter))))) @
               NL # asc ''</body>'' @ NL # asc ''</html>'')"
    unfolding chapter_html_def Let_def q
    apply (rule under_function)
    apply (rule page_tail | rule tail_of_join_Cons)+
    apply simp_all
    done
  have 3: "chapter_html self i (chapter\<lparr>content := a @ [NL, NL] @ b\<rparr>) =
         chapter_html self i (chapter\<lparr>content := a @ [NL] @ b\<rparr>)"
  proof -
    have p: "paragraphs (split_nl (content (chapter\<lparr>content := a @ [NL, NL] @ b\<rparr>))) [] =
             paragraphs (split_nl (content (chapter\<lparr>content := a @ [NL] @ b\<rparr>))) []"
      by (simp add: paragraphs_blank)
    have t: "title (chapter\<lparr>content := a @ [NL, NL] @ b\<rparr>) = title (chapter\<lparr>content := a @ [NL] @ b\<rparr>)"
      by simp
    show ?thesis unfolding chapter_html_def Let_def p t by (rule refl)
  qed
  from 1 2 3 show ?thesis by (simp only: simp_thms)
qed

theorem blank_line_witness:
  "scan_line \<lparr>scanned = [], current_chapter = asc ''a'' @ [NL], chapter_title = preface_title,
              chapter_count = 0\<rparr> (asc ''  '') =
     \<lparr>scanned = [], current_chapter = asc ''a'' @ [NL, NL], chapter_title = preface_title,
      chapter_count = 0\<rparr> \<and>
   (\<exists>head. chapter_html (init []) 0 \<lparr>title = asc ''One'', content = asc ''a'' @ [NL, NL] @ asc ''b''\<rparr> =
      sanitize_content (head @ join_nl [asc ''<p>a</p>'', asc ''<p>b</p>''] @
                        NL # asc ''</body>'' @ NL # asc ''</html>'')) \<and>
   chapter_html (init []) 0 \<lparr>title = asc ''One'', content = asc ''a'' @ [NL, NL] @ asc ''b''\<rparr> =
   chapter_html (init []) 0 \<lparr>title = asc ''One'', content = asc ''a'' @ [NL] @ asc ''b''\<rparr>"
proof -
  have s: "strip (asc ''  '') = []"
    by (simp add: strip_def lstrip_def rstrip_def isspace_def asc_def)
  have f: "map (\<lambda>l. asc ''<p>'' @ l @ asc ''</p>'')
          (filter (\<lambda>l. l \<noteq> [] \<and> \<not> startswith l [91, 22270, 29255] \<and> \<not> startswith l (asc ''![''))
             (map strip (split_nl (content \<lparr>title = asc ''One'', content = asc ''a'' @ [NL, NL] @ asc ''b''\<rparr>)))) =
        [asc ''<p>a</p>'', asc ''<p>b</p>'']"
    by (simp add: seg_eval)
  note b = blank_line[OF s, of
      "\<lparr>scanned = [], current_chapter = asc ''a'' @ [NL], chapter_title = preface_title, chapter_count = 0\<rparr>"
      "init []" 0 "\<lparr>title = asc ''One'', content = asc ''a'' @ [NL, NL] @ asc ''b''\<rparr>"
      "asc ''a''" "asc ''b''"]
  have 1: "scan_line \<lparr>scanned = [], current_chapter = asc ''a'' @ [NL], chapter_title = preface_title,
              chapter_count = 0\<rparr> (asc ''  '') =
     \<lparr>scanned = [], current_chapter = asc ''a'' @ [NL, NL], chapter_title = preface_title,
      chapter_count = 0\<rparr>"
    using b[THEN conjunct1] by simp
  have 2: "\<exists>head. chapter_html (init []) 0 \<lparr>title = asc ''One'', content = asc ''a'' @ [NL, NL] @ asc ''b''\<rparr> =
      sanitize_content (head @ join_nl [asc ''<p>a</p>'', asc ''<p>b</p>''] @
                        NL # asc ''</body>'' @ NL # asc ''</html>'')"
    using b[THEN conjunct2, THEN conjunct1] unfolding f .
  have 3: "chapter_html (init []) 0 \<lparr>title = asc ''One'', content = asc ''a'' @ [NL, NL] @ asc ''b''\<rparr> =
   chapter_html (init []) 0 \<lparr>title = asc ''One'', content = asc ''a'' @ [NL] @ asc ''b''\<rparr>"
    using b[THEN conjunct2, THEN conjunct2] by simp
  from 1 2 3 show ?thesis by (intro conjI)
qed

section \<open>The title in the generated parts\<close>

lemma match_div_None: "\<not> (c = 60 \<and> d = 100) \<Longrightarrow> match_div (c # d # cs) = None"
  by (auto simp: match_div_def startswith_def asc_def)

lemma match_div_None1: "c \<noteq> 60 \<Longrightarrow> match_div (c # cs) = None"
  by (auto simp: match_div_def startswith_def asc_def)

lemma sub_div_open_skip: "no_div_tag a \<Longrightarrow> sub_div_open (a @ b) = a @ sub_div_open b"
proof (induction a rule: no_div_tag.induct)
  case (1 c d e cs)
  then have "match_div (c # d # (e # cs) @ b) = None" by (intro match_div_None) auto
  then show ?case using 1 by simp
next
  case (2 c d)
  then show ?case by (cases b) (simp_all add: match_div_None1)
next
  case (3 c)
  then show ?case by (simp add: match_div_None1)
next
  case 4
  then show ?case by simp
qed

lemma sub_div_close_skip: "no_div_tag a \<Longrightarrow> sub_div_close (a @ b) = a @ sub_div_close b"
proof (induction a rule: no_div_tag.induct)
  case (1 c d e cs)
  then have "\<not> startswith (c # d # (e # cs) @ b) (asc ''</div>'')"
    by (auto simp: startswith_def asc_def)
  then show ?case using 1 by simp
next
  case (2 c d)
  then show ?case by (simp add: startswith_def asc_def)
next
  case (3 c)
  then show ?case by (simp add: startswith_def asc_def)
next
  case 4
  then show ?case by simp
qed

lemma sanitize_content_id: "no_div_tag a \<Longrightarrow> sanitize_content a = a"
  using sub_div_open_skip[of a "[]"] sub_div_close_skip[of a "[]"]
  by (simp add: sanitize_content_def)

lemma markup_book_eq:
  "markup_book =
     (init [])\<lparr>book_title := asc ''<b>T</b>'',
               chapters := [\<lparr>title = preface_title, content = asc ''text''\<rparr>]\<rparr>"
  by (simp add: markup_book_def seg_eval)

lemma sanitize_title_markup: "sanitize_title (asc ''<b>T</b>'') = asc ''T''"
  by (simp add: sanitize_title_def seg_eval)

lemma opf_markup: "contains (content_opf env markup_book) (asc ''        <dc:title>T</dc:title>'')"
  unfolding content_opf_def Let_def split_beta
  apply (rule contains_join)
  apply (simp add: markup_book_eq sanitize_title_markup)
  apply (simp add: asc_def)
  done

lemma ncx_markup: "contains (toc_ncx markup_book) (asc ''        <text><b>T</b></text>'')"
  unfolding toc_ncx_def Let_def
  apply (rule contains_join)
  apply (simp add: markup_book_eq)
  apply (simp add: asc_def)
  done

lemma nav_markup: "contains (nav_xhtml markup_book) (asc ''    <title><b>T</b></title>'')"
  unfolding nav_xhtml_def Let_def
  apply (rule contains_join)
  apply (simp add: markup_book_eq)
  apply (simp add: asc_def)
  done

lemma cover_markup: "contains (cover_html markup_book) (asc ''        <h1><b>T</b></h1>'')"
  unfolding cover_html_def
  apply (subst sanitize_content_id)
   apply (simp add: markup_book_eq init_def default_author_def asc_def NL_def)
  apply (rule contains_join)
  apply (simp add: markup_book_eq)
  apply (simp add: asc_def)
  done

lemma chapter_markup:
  "contains (chapter_html markup_book 0 (hd (chapters markup_book)))
     (asc ''    <h1 class=\"book-title\"><b>T</b></h1>'')"
  unfolding chapter_html_def Let_def
  apply (subst sanitize_content_id)
   apply (simp add: markup_book_eq init_def seg_eval)
  apply (rule contains_join)
  apply (simp add: markup_book_eq)
  apply (simp add: asc_def)
  done

text \<open>
  Claim C7 holds for the package document only. For the book whose title line is
  \<open><b>T</b>\<close>, the package document carries the title \<open>T\<close>, with the markup removed, while
  the cover page, both navigation documents and the page of the first chapter carry
  the title as it was read, markup included.
\<close>

theorem raw_title_embedded:
  "book_title markup_book = asc ''<b>T</b>'' \<and>
   sanitize_title (book_title markup_book) = asc ''T'' \<and>
   contains (content_opf env markup_book) (asc ''        <dc:title>T</dc:title>'') \<and>
   contains (cover_html markup_book) (asc ''        <h1><b>T</b></h1>'') \<and>
   contains (toc_ncx markup_book) (asc ''        <text><b>T</b></text>'') \<and>
   contains (nav_xhtml markup_book) (asc ''    <title><b>T</b></title>'') \<and>
   contains (chapter_html markup_book 0 (hd (chapters markup_book)))
     (asc ''    <h1 class=\"book-title\"><b>T</b></h1>'')"
  using opf_markup[of env] cover_markup ncx_markup nav_markup chapter_markup
  by (simp add: markup_book_eq sanitize_title_markup)

section \<open>Asset collector\<close>

lemma image_files_filter:
  "image_files lower fs = filter (\<lambda>f. lower (suffix f) \<in> set supported_formats) fs"
  by (induction fs) simp_all

lemma cover_add_image_files:
  "cover_image (add_image_files lower folder self fs) =
     (if filter (is_cover lower) fs = [] then cover_image self
      else Some \<lparr>image_id = asc ''cover'', path = path_join folder (last (filter (is_cover lower) fs)),
                 filename = last (filter (is_cover lower) fs)\<rparr>)"
  by (induction fs arbitrary: self) (simp_all add: add_image_def Let_def)

lemma images_add_image_files:
  "images (add_image_files lower folder self fs) =
     images self @
     map (\<lambda>(i, f). \<lparr>image_id = asc ''img_'' @ str_of_nat (i + 1), path = path_join folder f, filename = f\<rparr>)
         (enumerate (length (images self)) (filter (\<lambda>f. \<not> is_cover lower f) fs))"
  by (induction fs arbitrary: self) (simp_all add: add_image_def Let_def)

text \<open>
  Claim C4: of the entries of the folder, \<open>add_images\<close> keeps those whose suffix, in
  lower case, is one of the six supported ones, and sorts them. Of the sorted names,
  those that are not cover names are appended to the images in that order, the one at
  position \<open>k\<close> of the resulting list (counted from one) with the identifier \<open>img_k\<close>; the
  last cover name, if there is one, becomes the cover, and no cover name is among the
  images.
\<close>

theorem collector:
  "images (add_images lower folder (Some entries) self) =
     images self @
     map (\<lambda>(i, f). \<lparr>image_id = asc ''img_'' @ str_of_nat (i + 1), path = path_join folder f, filename = f\<rparr>)
         (enumerate (length (images self))
            (filter (\<lambda>f. \<not> is_cover lower f)
               (sort (filter (\<lambda>f. lower (suffix f) \<in> set supported_formats) entries)))) \<and>
   cover_image (add_images lower folder (Some entries) self) =
     (if filter (is_cover lower) (sort (filter (\<lambda>f. lower (suffix f) \<in> set supported_formats) entries)) = []
      then cover_image self
      else Some \<lparr>image_id = asc ''cover'',
                 path = path_join folder
                   (last (filter (is_cover lower)
                      (sort (filter (\<lambda>f. lower (suffix f) \<in> set supported_formats) entries)))),
                 filename =
                   last (filter (is_cover lower)
                      (sort (filter (\<lambda>f. lower (suffix f) \<in> set supported_formats) entries)))\<rparr>)"
  by (simp add: add_images_def image_files_filter images_add_image_files cover_add_image_files)

theorem collector_witness:
  "images (add_images ascii_lower (asc ''book_images'')
            (Some [asc ''cover.png'', asc ''z.PNG'', asc ''notes.txt'', asc ''a.png'']) (init [])) =
     [\<lparr>image_id = asc ''img_1'', path = asc ''book_images/a.png'', filename = asc ''a.png''\<rparr>,
      \<lparr>image_id = asc ''img_2'', path = asc ''book_images/z.PNG'', filename = asc ''z.PNG''\<rparr>] \<and>
   cover_image (add_images ascii_lower (asc ''book_images'')
            (Some [asc ''cover.png'', asc ''z.PNG'', asc ''notes.txt'', asc ''a.png'']) (init [])) =
     Some \<lparr>image_id = asc ''cover'', path = asc ''book_images/cover.png'', filename = asc ''cover.png''\<rparr>"
  using collector[of ascii_lower "asc ''book_images''"
      "[asc ''cover.png'', asc ''z.PNG'', asc ''notes.txt'', asc ''a.png'']" "init []"]
  by (simp add: init_def enumerate_eq_zip path_join_def startswith_def str_of_nat.simps asc_def
      is_cover_def ascii_lower_def suffix_def rfind_def supported_formats_def Let_def)

section \<open>Spine\<close>

lemma image_page_items_eq:
  "image_page_items es (m, s) =
     (m @ map (\<lambda>(i, img). asc ''    <item id=\"'' @ (asc ''image_page_'' @ str_of_nat (i + 1)) @
                 asc ''\" href=\"image_page_'' @ str_of_nat (i + 1) @
                 asc ''.xhtml\" media-type=\"application/xhtml+xml\"/>'') es,
      s @ map (\<lambda>(i, img). asc ''    <itemref idref=\"'' @ (asc ''image_page_'' @ str_of_nat (i + 1)) @
                 asc ''\"/>'') es)"
  by (induction es arbitrary: m s) (auto simp: Let_def)

lemma chapter_items_eq:
  "chapter_items es (m, s) =
     (m @ map (\<lambda>(i, ch). asc ''    <item id=\"'' @ (asc ''chapter_'' @ str_of_nat (i + 1)) @
                 asc ''\" href=\"chapter_'' @ str_of_nat (i + 1) @
                 asc ''.xhtml\" media-type=\"application/xhtml+xml\"/>'') es,
      s @ map (\<lambda>(i, ch). asc ''    <itemref idref=\"'' @ (asc ''chapter_'' @ str_of_nat (i + 1)) @
                 asc ''\"/>'') es)"
  by (induction es arbitrary: m s) (auto simp: Let_def)

lemma map_enumerate_index:
  "map (\<lambda>(i, x). h i) (enumerate n xs) = map h [n..<n + length xs]"
proof (induction xs arbitrary: n)
  case Nil
  then show ?case by simp
next
  case (Cons x xs)
  have "[n..<n + length (x # xs)] = n # [Suc n..<n + length (x # xs)]"
    by (rule upt_conv_Cons) simp
  moreover have "n + length (x # xs) = Suc n + length xs" by simp
  ultimately have e: "[n..<n + length (x # xs)] = n # [Suc n..<Suc n + length xs]"
    by (simp only:)
  have "map (\<lambda>(i, x). h i) (enumerate n (x # xs)) =
        h n # map (\<lambda>(i, x). h i) (enumerate (Suc n) xs)" by simp
  also have "\<dots> = h n # map h [Suc n..<Suc n + length xs]" by (simp only: Cons)
  also have "\<dots> = map h (n # [Suc n..<Suc n + length xs])" by simp
  finally show ?case by (simp only: e)
qed

lemma spine_items_eq:
  "spine_items_of env self =
     [asc ''    <itemref idref=\"cover\"/>''] @
     map (\<lambda>i. asc ''    <itemref idref=\"'' @ (asc ''image_page_'' @ str_of_nat (i + 1)) @ asc ''\"/>'')
         [0..<length (images self)] @
     map (\<lambda>i. asc ''    <itemref idref=\"'' @ (asc ''chapter_'' @ str_of_nat (i + 1)) @ asc ''\"/>'')
         [0..<length (chapters self)]"
  unfolding spine_items_of_def opf_items_def Let_def image_page_items_eq chapter_items_eq
  by (simp add: map_enumerate_index[where n=0, simplified] split: option.splits)

lemma map_enumerate_nth:
  "map (\<lambda>(i, x). f i x) (enumerate 0 xs) = map (\<lambda>i. f i (xs ! i)) [0..<length xs]"
  by (rule nth_equalityI) (simp_all add: nth_enumerate_eq)

lemma tail_of_join_spine:
  "s \<noteq> [] \<Longrightarrow> \<exists>pre. join_nl [a, join_nl s, b, c] = pre @ join_nl ([a] @ s @ [b, c])"
proof -
  assume "s \<noteq> []"
  then have "join_nl ([a] @ s @ [b, c]) = join_nl [a, join_nl s, b, c]"
    by (simp add: join_nl_Cons join_nl_append)
  then have "join_nl [a, join_nl s, b, c] = [] @ join_nl ([a] @ s @ [b, c])" by simp
  then show ?thesis by blast
qed

text \<open>
  Claim C3: the spine of the package document lists the cover page, then the image
  pages 1 to n, then the chapter pages 1 to m, where n and m are the numbers of
  ordinary images and of chapters, and the package document ends with these lines
  between its spine tags. The file of image page k is written from the k-th image of
  the collector and the file of chapter page k from the k-th chapter of the segmenter.
\<close>

theorem spine_order:
  "spine_items_of env self =
     [asc ''    <itemref idref=\"cover\"/>''] @
     map (\<lambda>i. asc ''    <itemref idref=\"'' @ (asc ''image_page_'' @ str_of_nat (i + 1)) @ asc ''\"/>'')
         [0..<length (images self)] @
     map (\<lambda>i. asc ''    <itemref idref=\"'' @ (asc ''chapter_'' @ str_of_nat (i + 1)) @ asc ''\"/>'')
         [0..<length (chapters self)] \<and>
   (\<exists>pre. content_opf env self =
      pre @ join_nl ([asc ''    <spine>''] @ spine_items_of env self @
                     [asc ''    </spine>'', asc ''</package>''])) \<and>
   create_image_pages env self temp_dir =
     run (map (\<lambda>i. write_file env
                      (temp_dir @ asc ''/OEBPS/image_page_'' @ str_of_nat (i + 1) @ asc ''.xhtml'')
                      (image_html i (images self ! i)))
              [0..<length (images self)]) \<and>
   create_chapters_html env self temp_dir =
     run (map (\<lambda>i. write_file env
                      (temp_dir @ asc ''/OEBPS/chapter_'' @ str_of_nat (i + 1) @ asc ''.xhtml'')
                      (chapter_html self i (chapters self ! i)))
              [0..<length (chapters self)])"
proof -
  have ne: "snd (opf_items env self) \<noteq> []"
    using spine_items_eq[of env self] by (simp add: spine_items_of_def)
  have "\<exists>pre. content_opf env self =
      pre @ join_nl ([asc ''    <spine>''] @ spine_items_of env self @
                     [asc ''    </spine>'', asc ''</package>''])"
    unfolding content_opf_def Let_def split_beta spine_items_of_def
    apply (rule tail_of_join_spine | rule tail_of_join_Cons)+
    apply (simp_all add: ne)
    done
  moreover have "create_image_pages env self temp_dir =
     run (map (\<lambda>i. write_file env
                      (temp_dir @ asc ''/OEBPS/image_page_'' @ str_of_nat (i + 1) @ asc ''.xhtml'')
                      (image_html i (images self ! i)))
              [0..<length (images self)])"
    unfolding create_image_pages_def by (simp only: map_enumerate_nth)
  moreover have "create_chapters_html env self temp_dir =
     run (map (\<lambda>i. write_file env
                      (temp_dir @ asc ''/OEBPS/chapter_'' @ str_of_nat (i + 1) @ asc ''.xhtml'')
                      (chapter_html self i (chapters self ! i)))
              [0..<length (chapters self)])"
    unfolding create_chapters_html_def by (simp only: map_enumerate_nth)
  ultimately show ?thesis using spine_items_eq[of env self] by (simp only: simp_thms)
qed

theorem spine_order_witness:
  "spine_items_of example_env
     ((init [])\<lparr>images := [\<lparr>image_id = asc ''img_1'', path = asc ''i/a.png'', filename = asc ''a.png''\<rparr>,
                           \<lparr>image_id = asc ''img_2'', path = asc ''i/z.png'', filename = asc ''z.png''\<rparr>],
                chapters := [\<lparr>title = asc ''1. One'', content = asc ''a''\<rparr>,
                             \<lparr>title = asc ''2. Two'', content = asc ''b''\<rparr>,
                             \<lparr>title = asc ''3. Three'', content = asc ''c''\<rparr>]\<rparr>) =
     [asc ''    <itemref idref=\"cover\"/>'',
      asc ''    <itemref idref=\"image_page_1\"/>'',
      asc ''    <itemref idref=\"image_page_2\"/>'',
      asc ''    <itemref idref=\"chapter_1\"/>'',
      asc ''    <itemref idref=\"chapter_2\"/>'',
      asc ''    <itemref idref=\"chapter_3\"/>'']"
  using spine_order[of example_env
     "(init [])\<lparr>images := [\<lparr>image_id = asc ''img_1'', path = asc ''i/a.png'', filename = asc ''a.png''\<rparr>,
                           \<lparr>image_id = asc ''img_2'', path = asc ''i/z.png'', filename = asc ''z.png''\<rparr>],
                chapters := [\<lparr>title = asc ''1. One'', content = asc ''a''\<rparr>,
                             \<lparr>title = asc ''2. Two'', content = asc ''b''\<rparr>,
                             \<lparr>title = asc ''3. Three'', content = asc ''c''\<rparr>]\<rparr>"]
  by (simp add: upt_rec str_of_nat.simps asc_def)

section \<open>Archive\<close>

lemma zip_write_ok:
  "zip_write env c p a ct es w = (None, es', w') \<Longrightarrow>
     es' = es @ [(a, (case ct of None \<Rightarrow> c | Some x \<Rightarrow> x), the (files w p))] \<and> files w' = files w"
  by (auto simp: zip_write_def tick_def split: option.splits)

lemma zip_files_ok:
  "zip_files env t root fs es w = (None, es', w') \<Longrightarrow>
     es' = es @ map (\<lambda>f. deflated_entry (files w) t (root, f)) (filter (\<lambda>f. f \<noteq> asc ''mimetype'') fs) \<and>
     files w' = files w"
proof (induction fs arbitrary: es w)
  case Nil
  then show ?case by simp
next
  case (Cons f fs)
  show ?case
  proof (cases "f = asc ''mimetype''")
    case True
    then show ?thesis using Cons by simp
  next
    case False
    obtain r1 es1 w1 where z:
      "zip_write env ZIP_DEFLATED (path_join root f) (relpath (path_join root f) t) None es w = (r1, es1, w1)"
      by (cases "zip_write env ZIP_DEFLATED (path_join root f) (relpath (path_join root f) t) None es w")
    show ?thesis
    proof (cases r1)
      case (Some e)
      with z False Cons.prems show ?thesis by (simp add: Let_def)
    next
      case None
      with z have 1: "es1 = es @ [deflated_entry (files w) t (root, f)]" "files w1 = files w"
        using zip_write_ok[of env ZIP_DEFLATED "path_join root f" "relpath (path_join root f) t" None es w es1 w1]
        by (simp_all add: deflated_entry_def)
      from z None False Cons.prems have "zip_files env t root fs es1 w1 = (None, es', w')"
        by (simp add: Let_def)
      from Cons.IH[OF this] 1 False show ?thesis by simp
    qed
  qed
qed

lemma zip_walk_ok:
  "zip_walk env t ws es w = (None, es', w') \<Longrightarrow>
     es' = es @ map (deflated_entry (files w) t) (walked_files ws) \<and> files w' = files w"
proof (induction ws arbitrary: es w)
  case Nil
  then show ?case by (simp add: walked_files_def)
next
  case (Cons x ws)
  obtain root dirs fs where x: "x = (root, dirs, fs)" by (cases x)
  obtain r1 es1 w1 where z: "zip_files env t root fs es w = (r1, es1, w1)"
    by (cases "zip_files env t root fs es w")
  show ?case
  proof (cases r1)
    case (Some e)
    with z x Cons.prems show ?thesis by simp
  next
    case None
    with z have 1:
      "es1 = es @ map (\<lambda>f. deflated_entry (files w) t (root, f)) (filter (\<lambda>f. f \<noteq> asc ''mimetype'') fs)"
      "files w1 = files w"
      using zip_files_ok[of env t root fs es w es1 w1] by simp_all
    from z None x Cons.prems have "zip_walk env t ws es1 w1 = (None, es', w')" by simp
    from Cons.IH[OF this] 1 x show ?thesis
      by (simp add: walked_files_def comp_def)
  qed
qed

lemma deflated_entries:
  "\<forall>e\<in>set (map (deflated_entry disk t) rfs). fst (snd e) = ZIP_DEFLATED"
  by (simp add: deflated_entry_def)

lemma complete_walk_entries:
  assumes "walk_complete walk disk t"
    and "disk p \<noteq> None" and "startswith p (t @ asc ''/'')"
    and "\<forall>root. p \<noteq> path_join root (asc ''mimetype'')"
  shows "(relpath p t, ZIP_DEFLATED, the (disk p)) \<in> set (map (deflated_entry disk t) (walked_files walk))"
proof -
  from assms(1-3) obtain x f where x: "x \<in> set walk" "f \<in> set (snd (snd x))" "p = path_join (fst x) f"
    unfolding walk_complete_def by blast
  have "f \<noteq> asc ''mimetype''" using assms(4) x(3) by blast
  then have "(fst x, f) \<in> set (walked_files walk)"
    using x(1,2) unfolding walked_files_def by (force simp: case_prod_unfold)
  then have "deflated_entry disk t (fst x, f) \<in> set (map (deflated_entry disk t) (walked_files walk))"
    by simp
  then show ?thesis using x(3) by (simp add: deflated_entry_def)
qed

text \<open>
  Claim C5: when \<open>_create_epub_zip\<close> returns without an error, the archive at the output
  path is the file \<open>mimetype\<close>, stored without compression, followed by one entry for
  each file that the walk of the scratch directory yields, except files named
  \<open>mimetype\<close>, in the order of the walk; each of these entries is written with the
  deflate compression, under the path relative to the scratch directory and with the
  content of the file. When the walk yields every file below the scratch directory,
  as \<open>os.walk\<close> does, every such file not named \<open>mimetype\<close> (every generated part and
  every copied image that is there) has its deflated entry. Here \<open>disk\<close> is the content
  of the file system once the archive is opened and \<open>walk\<close> is the result of \<open>os.walk\<close>.
\<close>

theorem archive_layout:
  assumes "create_epub_zip env temp_dir output_path w = (None, w')"
    and "disk = (files w)(output_path \<mapsto> Zip [])"
    and "walk = os_walk env (tick (tick (w\<lparr>files := disk\<rparr>))) temp_dir"
  shows "files w' output_path =
           Some (Zip ((asc ''mimetype'', ZIP_STORED, the (disk (temp_dir @ asc ''/mimetype''))) #
                      map (deflated_entry disk temp_dir) (walked_files walk))) \<and>
         (\<forall>e\<in>set (map (deflated_entry disk temp_dir) (walked_files walk)). fst (snd e) = ZIP_DEFLATED) \<and>
         (walk_complete walk disk temp_dir \<longrightarrow>
            (\<forall>p. disk p \<noteq> None \<and> startswith p (temp_dir @ asc ''/'') \<and>
                 (\<forall>root. p \<noteq> path_join root (asc ''mimetype'')) \<longrightarrow>
                 (relpath p temp_dir, ZIP_DEFLATED, the (disk p)) \<in>
                   set (map (deflated_entry disk temp_dir) (walked_files walk))))"
proof -
  from assms(1) have f: "faults env (clock w) = None"
    by (auto simp: create_epub_zip_def split: option.splits)
  let ?w0 = "tick (w\<lparr>files := disk\<rparr>)"
  have d0: "files ?w0 = disk" by (simp add: tick_def)
  obtain r1 es1 w1 where z:
    "zip_write env ZIP_DEFLATED (temp_dir @ asc ''/mimetype'') (asc ''mimetype'') (Some ZIP_STORED) [] ?w0 =
       (r1, es1, w1)"
    by (cases "zip_write env ZIP_DEFLATED (temp_dir @ asc ''/mimetype'') (asc ''mimetype'')
                 (Some ZIP_STORED) [] ?w0")
  have r1: "r1 = None"
  proof (cases r1)
    case None
    then show ?thesis .
  next
    case (Some e)
    with assms(1,2) f z show ?thesis by (simp add: create_epub_zip_def Let_def)
  qed
  from z r1 have es1: "es1 = [(asc ''mimetype'', ZIP_STORED, the (disk (temp_dir @ asc ''/mimetype'')))]"
    and d1: "files w1 = disk"
    using zip_write_ok[of env ZIP_DEFLATED "temp_dir @ asc ''/mimetype''" "asc ''mimetype''"
        "Some ZIP_STORED" "[]" ?w0 es1 w1] d0 by simp_all
  from z r1 have w1: "w1 = tick ?w0"
    by (auto simp: zip_write_def split: option.splits)
  obtain r2 es2 w2 where k: "zip_walk env temp_dir walk es1 w1 = (r2, es2, w2)"
    by (cases "zip_walk env temp_dir walk es1 w1")
  from assms f z r1 k w1 have res: "r2 = None" "w' = w2\<lparr>files := (files w2)(output_path \<mapsto> Zip es2)\<rparr>"
    by (simp_all add: create_epub_zip_def Let_def)
  from k res(1) have "es2 = es1 @ map (deflated_entry (files w1) temp_dir) (walked_files walk)"
    using zip_walk_ok[of env temp_dir walk es1 w1 es2 w2] by simp
  with es1 d1 res(2) have a: "files w' output_path =
           Some (Zip ((asc ''mimetype'', ZIP_STORED, the (disk (temp_dir @ asc ''/mimetype''))) #
                      map (deflated_entry disk temp_dir) (walked_files walk)))"
    by simp
  show ?thesis
    using a deflated_entries[of disk temp_dir "walked_files walk"]
      complete_walk_entries[of walk disk temp_dir]
    by blast
qed

lemma example_zip:
  "create_epub_zip example_env (asc ''temp_epub'') (asc ''book.epub'') example_world =
     (None, snd (create_epub_zip example_env (asc ''temp_epub'') (asc ''book.epub'') example_world))"
proof -
  have "fst (create_epub_zip example_env (asc ''temp_epub'') (asc ''book.epub'') example_world) = None"
    by (simp add: create_epub_zip_def example_env_def example_world_def zip_write_def tick_def
        path_join_def relpath_def startswith_def asc_def Let_def)
  then show ?thesis by (simp add: prod_eq_iff)
qed

lemma example_walk_complete:
  "walk_complete
     (os_walk example_env
        (tick (tick (example_world\<lparr>files := (files example_world)(asc ''book.epub'' \<mapsto> Zip [])\<rparr>)))
        (asc ''temp_epub''))
     ((files example_world)(asc ''book.epub'' \<mapsto> Zip [])) (asc ''temp_epub'')"
  by (simp add: walk_complete_def example_env_def example_world_def path_join_def startswith_def asc_def)

theorem archive_layout_witness:
  "files (snd (create_epub_zip example_env (asc ''temp_epub'') (asc ''book.epub'') example_world))
     (asc ''book.epub'') =
     Some (Zip [(asc ''mimetype'', ZIP_STORED, File (asc ''application/epub+zip'')),
                (asc ''OEBPS/content.opf'', ZIP_DEFLATED, File (asc ''<package/>''))]) \<and>
   (asc ''OEBPS/content.opf'', ZIP_DEFLATED, File (asc ''<package/>'')) \<in>
     set (map (deflated_entry ((files example_world)(asc ''book.epub'' \<mapsto> Zip [])) (asc ''temp_epub''))
            (walked_files
               (os_walk example_env
                  (tick (tick (example_world\<lparr>files := (files example_world)(asc ''book.epub'' \<mapsto> Zip [])\<rparr>)))
                  (asc ''temp_epub''))))"
  using archive_layout[OF example_zip refl refl] example_walk_complete
  by (simp add: walked_files_def deflated_entry_def example_env_def example_world_def relpath_def
      path_join_def startswith_def asc_def)

section \<open>Cleanup\<close>






















end
